theory Spec2Isabelle
  imports Complex_Main "HOL-Library.Word"
begin

section \<open>Covariance ellipses: the notebook's \<open>cov_to_ellipse\<close> and \<open>plot_ellipse\<close>\<close>

text \<open>
  The notebook \<^verbatim>\<open>Uncertainty_plotting.ipynb\<close> defines two functions:
  \<^verbatim>\<open>
  def cov_to_ellipse(cov, pos, **kwargs):
      eigvec,eigval,V=sl.svd(cov,full_matrices=False)
      theta = np.degrees(np.arctan2(eigvec[1, 0], eigvec[0, 0]))
      width, height = 2 * np.sqrt(eigval)
      return Ellipse(xy=pos, width=width, height=height, angle=theta, **kwargs)

  def plot_ellipse(t, ax=None, **kwargs):
      if ax is None:
          ax = plt.gca()
      for row in t:
          cov = np.array([
              [row['sx']**2, row['pxy'] * row['sx'] * row['sy']],
              [row['pxy'] * row['sx'] * row['sy'], row['sy']**2] ])
          ellip = cov_to_ellipse(cov, [row['x'], row['y']], **kwargs)
          ax.add_artist(ellip)
  \<close>
  Inside the range of the float64 format numbers are modelled as real numbers (the exact
  arithmetic that the floating-point code approximates, its rounding left out). What
  happens at the ends of the range is modelled where the loop computes the covariance
  array from the cells of the table: a float64 result overflows to an infinity or
  underflows to zero, an int64 result wraps around. The numpy functions \<open>degrees\<close>,
  \<open>arctan2\<close> and \<open>sqrt\<close> are given their mathematical meaning. The library routine \<open>scipy.linalg.svd\<close> is not part of
  the notebook: it is a parameter of the model, and what the library documents about it
  (orthogonal factors, singular values non-negative and in non-increasing order, the
  product giving back the matrix) is the predicate \<open>is_svd\<close>. The square root is only
  ever taken of singular values; every statement below about axis lengths assumes the
  contract, under which they are non-negative (numpy's \<open>sqrt\<close> of a negative number is
  not a real number, HOL's is a negative one).
\<close>

subsection \<open>Two-by-two matrices\<close>

record mat2 =
  m00 :: real
  m01 :: real
  m10 :: real
  m11 :: real

definition mat_mul :: "mat2 \<Rightarrow> mat2 \<Rightarrow> mat2" where
  "mat_mul A B =
     \<lparr>m00 = m00 A * m00 B + m01 A * m10 B, m01 = m00 A * m01 B + m01 A * m11 B,
      m10 = m10 A * m00 B + m11 A * m10 B, m11 = m10 A * m01 B + m11 A * m11 B\<rparr>"

definition transpose2 :: "mat2 \<Rightarrow> mat2" where
  "transpose2 A = \<lparr>m00 = m00 A, m01 = m10 A, m10 = m01 A, m11 = m11 A\<rparr>"

definition diag2 :: "real \<times> real \<Rightarrow> mat2" where
  "diag2 s = \<lparr>m00 = fst s, m01 = 0, m10 = 0, m11 = snd s\<rparr>"

definition ident2 :: mat2 where
  "ident2 = \<lparr>m00 = 1, m01 = 0, m10 = 0, m11 = 1\<rparr>"

definition scale2 :: "real \<Rightarrow> mat2 \<Rightarrow> mat2" where
  "scale2 c A = \<lparr>m00 = c * m00 A, m01 = c * m01 A, m10 = c * m10 A, m11 = c * m11 A\<rparr>"

definition det2 :: "mat2 \<Rightarrow> real" where
  "det2 A = m00 A * m11 A - m01 A * m10 A"

definition trace2 :: "mat2 \<Rightarrow> real" where
  "trace2 A = m00 A + m11 A"

definition mat_vec :: "mat2 \<Rightarrow> real \<times> real \<Rightarrow> real \<times> real" where
  "mat_vec A v = (m00 A * fst v + m01 A * snd v, m10 A * fst v + m11 A * snd v)"

text \<open>Symmetric and positive semi-definite: what the specification calls a valid
  covariance matrix.\<close>

definition symmetric2 :: "mat2 \<Rightarrow> bool" where
  "symmetric2 A \<longleftrightarrow> m01 A = m10 A"

definition psd2 :: "mat2 \<Rightarrow> bool" where
  "psd2 A \<longleftrightarrow> symmetric2 A \<and> 0 \<le> m00 A \<and> 0 \<le> m11 A \<and> 0 \<le> det2 A"

subsection \<open>The library functions\<close>

text \<open>\<open>np.degrees\<close>, and \<open>np.arctan2\<close> with the quadrant rules of C's \<open>atan2\<close>
  (range \<open>(-pi, pi]\<close>; the signed zeros of floating point do not exist here).\<close>

definition degrees :: "real \<Rightarrow> real" where
  "degrees r = r * 180 / pi"

definition arctan2 :: "real \<Rightarrow> real \<Rightarrow> real" where
  "arctan2 y x =
     (if 0 < x then arctan (y / x)
      else if x < 0 then (if 0 \<le> y then arctan (y / x) + pi else arctan (y / x) - pi)
      else if 0 < y then pi / 2
      else if y < 0 then - (pi / 2)
      else 0)"

text \<open>The exceptions \<open>scipy.linalg.svd\<close> documents: \<open>LinAlgError\<close> when the iteration
  does not converge, \<open>ValueError\<close> for an input it rejects. The notebook raises nothing
  itself and catches nothing.\<close>

datatype error = LinAlgError | ValueError

type_synonym svd_result = "mat2 \<times> (real \<times> real) \<times> mat2"

type_synonym svd_fun = "mat2 \<Rightarrow> error + svd_result"

text \<open>The documented contract of \<open>svd\<close>: \<open>cov = U * diag s * Vh\<close> with \<open>U\<close> and \<open>Vh\<close>
  orthogonal and the singular values \<open>s\<close> non-negative, sorted in non-increasing order.\<close>

definition is_svd :: "mat2 \<Rightarrow> svd_result \<Rightarrow> bool" where
  "is_svd cov r \<longleftrightarrow>
     (case r of (U, s, Vh) \<Rightarrow>
        mat_mul (transpose2 U) U = ident2 \<and>
        mat_mul Vh (transpose2 Vh) = ident2 \<and>
        0 \<le> snd s \<and> snd s \<le> fst s \<and>
        mat_mul (mat_mul U (diag2 s)) Vh = cov)"

definition svd_ok :: "svd_fun \<Rightarrow> mat2 \<Rightarrow> bool" where
  "svd_ok svd cov \<longleftrightarrow> (case svd cov of Inl e \<Rightarrow> False | Inr r \<Rightarrow> is_svd cov r)"

subsection \<open>The notebook's functions\<close>

text \<open>\<open>matplotlib.patches.Ellipse\<close>, with the fields the call sets; the style keywords
  are passed through unread. \<open>cov_to_ellipse\<close> is defined here on an array of finite
  numbers; its call on an array that holds an infinity or a nan is
  \<open>cov_to_ellipse_array\<close> below.\<close>

record 'k ellipse =
  xy :: "real \<times> real"
  width :: real
  height :: real
  angle :: real
  kwargs :: 'k

definition cov_to_ellipse :: "svd_fun \<Rightarrow> mat2 \<Rightarrow> real \<times> real \<Rightarrow> 'k \<Rightarrow> error + 'k ellipse" where
  "cov_to_ellipse svd cov pos kw =
     (case svd cov of
        Inl e \<Rightarrow> Inl e
      | Inr (eigvec, eigval, V) \<Rightarrow>
          let theta = degrees (arctan2 (m10 eigvec) (m00 eigvec));
              w = 2 * sqrt (fst eigval);
              h = 2 * sqrt (snd eigval)
          in Inr \<lparr>xy = pos, width = w, height = h, angle = theta, kwargs = kw\<rparr>)"

subsection \<open>The cells of the table\<close>

text \<open>A cell that the loop computes with is a numpy scalar: an \<open>int64\<close>, or a \<open>float64\<close>,
  which is a finite number, an infinity or a nan. A finite float is modelled by the real
  number it stands for; infinities and nans are one value, since all the code can do with
  them is to fail.\<close>

datatype scalar = I64 "64 word" | F64 real | NonFinite

text \<open>The float64 result of an operation whose exact value is \<open>v\<close>. From half an ulp above
  the largest float on, \<open>2^1024 - 2^970\<close>, it is an infinity; up to half the smallest
  subnormal, \<open>2^-1075\<close>, it is zero.\<close>

definition overflow_bound :: real where
  "overflow_bound = 2 ^ 1024 - 2 ^ 970"

definition underflow_bound :: real where
  "underflow_bound = 1 / 2 ^ 1075"

definition fl64 :: "real \<Rightarrow> scalar" where
  "fl64 v =
     (if overflow_bound \<le> \<bar>v\<bar> then NonFinite
      else if \<bar>v\<bar> \<le> underflow_bound then F64 0
      else F64 v)"

text \<open>The value of a scalar as a float64: an \<open>int64\<close> is converted when it meets a float
  and when the array is handed to the decomposition.\<close>

fun float_of :: "scalar \<Rightarrow> real option" where
  "float_of (I64 n) = Some (real_of_int (sint n))"
| "float_of (F64 v) = Some v"
| "float_of NonFinite = None"

text \<open>\<open>a * b\<close>: the product of two \<open>int64\<close> wraps around modulo \<open>2^64\<close>; any other
  product is a float64 product.\<close>

fun smul :: "scalar \<Rightarrow> scalar \<Rightarrow> scalar" where
  "smul (I64 a) (I64 b) = I64 (a * b)"
| "smul u v =
     (case float_of u of
        None \<Rightarrow> NonFinite
      | Some p \<Rightarrow> (case float_of v of None \<Rightarrow> NonFinite | Some q \<Rightarrow> fl64 (p * q)))"

text \<open>\<open>a ** 2\<close>, with the same wrap-around and overflow.\<close>

fun ssquare :: "scalar \<Rightarrow> scalar" where
  "ssquare (I64 a) = I64 (a * a)"
| "ssquare (F64 v) = fl64 (v * v)"
| "ssquare NonFinite = NonFinite"

text \<open>\<open>np.array\<close> of the four entries, as the decomposition receives it, a float64 array.
  \<open>None\<close> stands for an array that holds an infinity or a nan.\<close>

definition np_array :: "scalar \<Rightarrow> scalar \<Rightarrow> scalar \<Rightarrow> scalar \<Rightarrow> mat2 option" where
  "np_array c00 c01 c10 c11 =
     (case float_of c00 of None \<Rightarrow> None | Some a \<Rightarrow>
      case float_of c01 of None \<Rightarrow> None | Some b \<Rightarrow>
      case float_of c10 of None \<Rightarrow> None | Some c \<Rightarrow>
      case float_of c11 of None \<Rightarrow> None | Some d \<Rightarrow>
        Some \<lparr>m00 = a, m01 = b, m10 = c, m11 = d\<rparr>)"

text \<open>A row of the table \<open>t\<close>, with the five columns the loop reads. The position is only
  passed on to the ellipse and is modelled by its value.\<close>

record row =
  x :: real
  y :: real
  sx :: scalar
  sy :: scalar
  pxy :: scalar

definition row_cov :: "row \<Rightarrow> mat2 option" where
  "row_cov r =
     np_array (ssquare (sx r)) (smul (smul (pxy r) (sx r)) (sy r))
              (smul (smul (pxy r) (sx r)) (sy r)) (ssquare (sy r))"

text \<open>\<open>scipy.linalg.svd\<close> checks its argument first (\<open>check_finite\<close>, on by default) and
  raises \<open>ValueError\<close> on an array that holds an infinity or a nan. \<open>array_svd\<close> is the call
  \<open>sl.svd(cov)\<close> on the array the loop built, \<open>array_ok\<close> says that it returns a
  decomposition of that array, and \<open>cov_to_ellipse_array\<close> is the call of \<open>cov_to_ellipse\<close>
  on it.\<close>

definition array_svd :: "svd_fun \<Rightarrow> mat2 option \<Rightarrow> error + svd_result" where
  "array_svd svd arr = (case arr of None \<Rightarrow> Inl ValueError | Some cov \<Rightarrow> svd cov)"

definition array_ok :: "svd_fun \<Rightarrow> mat2 option \<Rightarrow> bool" where
  "array_ok svd arr \<longleftrightarrow> (case arr of None \<Rightarrow> False | Some cov \<Rightarrow> svd_ok svd cov)"

definition cov_to_ellipse_array ::
  "svd_fun \<Rightarrow> mat2 option \<Rightarrow> real \<times> real \<Rightarrow> 'k \<Rightarrow> error + 'k ellipse" where
  "cov_to_ellipse_array svd arr pos kw =
     (case arr of
        None \<Rightarrow> Inl ValueError
      | Some cov \<Rightarrow> cov_to_ellipse svd cov pos kw)"

text \<open>The axes hold the artists added so far; \<open>add_artist\<close> appends.\<close>

record 'k axes =
  artists :: "'k ellipse list"

definition add_artist :: "'k axes \<Rightarrow> 'k ellipse \<Rightarrow> 'k axes" where
  "add_artist ax e = ax\<lparr>artists := artists ax @ [e]\<rparr>"

text \<open>The \<open>for\<close> loop. An exception raised in the body leaves the loop and the function:
  the result is the axes as mutated so far, and the exception if there was one.\<close>

fun plot_rows :: "svd_fun \<Rightarrow> 'k \<Rightarrow> row list \<Rightarrow> 'k axes \<Rightarrow> 'k axes \<times> error option" where
  "plot_rows svd kw [] ax = (ax, None)"
| "plot_rows svd kw (r # rest) ax =
     (case cov_to_ellipse_array svd (row_cov r) (x r, y r) kw of
        Inl e \<Rightarrow> (ax, Some e)
      | Inr ellip \<Rightarrow> plot_rows svd kw rest (add_artist ax ellip))"

text \<open>\<open>gca\<close> is the current axes of the plotting library, used when no axes are given.\<close>

definition plot_ellipse ::
  "svd_fun \<Rightarrow> 'k axes \<Rightarrow> row list \<Rightarrow> 'k axes option \<Rightarrow> 'k \<Rightarrow> 'k axes \<times> error option" where
  "plot_ellipse svd gca t ax kw =
     (let ax' = (case ax of None \<Rightarrow> gca | Some a \<Rightarrow> a)
      in plot_rows svd kw t ax')"

text \<open>The specification's validity condition on a record: finite numbers with
  \<open>sigma_x, sigma_y \<ge> 0\<close> and \<open>rho_xy\<close> in \<open>[-1, 1]\<close>.\<close>

definition in_range :: "scalar \<Rightarrow> real \<Rightarrow> real \<Rightarrow> bool" where
  "in_range c lo hi \<longleftrightarrow> (case float_of c of None \<Rightarrow> False | Some v \<Rightarrow> lo \<le> v \<and> v \<le> hi)"

definition nonneg :: "scalar \<Rightarrow> bool" where
  "nonneg c \<longleftrightarrow> (case float_of c of None \<Rightarrow> False | Some v \<Rightarrow> 0 \<le> v)"

definition valid_point :: "row \<Rightarrow> bool" where
  "valid_point r \<longleftrightarrow> nonneg (sx r) \<and> nonneg (sy r) \<and> in_range (pxy r) (- 1) 1"

subsection \<open>A reference decomposition\<close>

text \<open>One function that meets the contract on every symmetric matrix (lemma \<open>sym_svd_ok\<close>
  below), from the closed form of the eigenvalues of a symmetric two-by-two matrix. It
  stands for the library routine wherever the notebook's functions are evaluated on
  concrete numbers. The contract leaves the sign of the singular vectors open; here the
  first left singular vector of a matrix with a non-zero off-diagonal entry \<open>b\<close> and
  leading eigenvalue \<open>big\<close> is \<open>- (b, big - a)\<close> normalised, and a diagonal matrix is
  decomposed by the identity or the exchange matrix. A matrix that is not symmetric, which
  \<open>plot_ellipse\<close> never builds, is outside its domain and is answered by an exception.\<close>

definition sg :: "real \<Rightarrow> real" where
  "sg v = (if v < 0 then - 1 else 1)"

definition sym_svd :: svd_fun where
  "sym_svd A =
     (let a = m00 A; b = m01 A; d = m11 A in
      if m10 A \<noteq> b then Inl ValueError
      else if b = 0 then
        (if \<bar>d\<bar> \<le> \<bar>a\<bar>
         then Inr (ident2, (\<bar>a\<bar>, \<bar>d\<bar>), diag2 (sg a, sg d))
         else Inr (\<lparr>m00 = 0, m01 = 1, m10 = 1, m11 = 0\<rparr>, (\<bar>d\<bar>, \<bar>a\<bar>),
                   \<lparr>m00 = 0, m01 = sg d, m10 = sg a, m11 = 0\<rparr>))
      else
        let m = (a + d) / 2;
            r = sqrt (((a - d) / 2)\<^sup>2 + b\<^sup>2);
            big = (if 0 \<le> m then m + r else m - r);
            small = (if 0 \<le> m then m - r else m + r);
            n = sqrt (b\<^sup>2 + (big - a)\<^sup>2);
            c = - b / n;
            t = - (big - a) / n
        in Inr (\<lparr>m00 = c, m01 = t, m10 = t, m11 = - c\<rparr>, (\<bar>big\<bar>, \<bar>small\<bar>),
                \<lparr>m00 = sg big * c, m01 = sg big * t, m10 = sg small * t, m11 = - (sg small * c)\<rparr>))"

text \<open>The unit vector at an angle given in degrees from the positive x-axis.\<close>

definition angle_direction :: "real \<Rightarrow> real \<times> real" where
  "angle_direction a = (cos (a * pi / 180), sin (a * pi / 180))"




section \<open>Matrix algebra\<close>

lemma mat_mul_assoc: "mat_mul (mat_mul A B) C = mat_mul A (mat_mul B C)"
  by (simp add: mat_mul_def algebra_simps)

lemma mat_mul_ident_right: "mat_mul A ident2 = A"
  by (simp add: mat_mul_def ident2_def)

lemma mat_mul_ident_left: "mat_mul ident2 A = A"
  by (simp add: mat_mul_def ident2_def)

lemma transpose2_mat_mul: "transpose2 (mat_mul A B) = mat_mul (transpose2 B) (transpose2 A)"
  by (simp add: mat_mul_def transpose2_def algebra_simps)

lemma transpose2_diag2: "transpose2 (diag2 s) = diag2 s"
  by (simp add: transpose2_def diag2_def)

lemma det2_mat_mul: "det2 (mat_mul A B) = det2 A * det2 B"
  by (simp add: mat_mul_def det2_def algebra_simps)

lemma det2_transpose2: "det2 (transpose2 A) = det2 A"
  by (simp add: transpose2_def det2_def)

lemma trace2_mat_mul_commute: "trace2 (mat_mul A B) = trace2 (mat_mul B A)"
  by (simp add: mat_mul_def trace2_def algebra_simps)

lemma orthogonal_det2: "mat_mul (transpose2 U) U = ident2 \<Longrightarrow> (det2 U)\<^sup>2 = 1"
proof -
  assume "mat_mul (transpose2 U) U = ident2"
  then have "det2 (mat_mul (transpose2 U) U) = det2 ident2" by simp
  then show ?thesis
    by (simp add: det2_mat_mul det2_transpose2 power2_eq_square) (simp add: det2_def ident2_def)
qed

lemma orthogonal_det2': "mat_mul U (transpose2 U) = ident2 \<Longrightarrow> (det2 U)\<^sup>2 = 1"
proof -
  assume "mat_mul U (transpose2 U) = ident2"
  then have "det2 (mat_mul U (transpose2 U)) = det2 ident2" by simp
  then show ?thesis
    by (simp add: det2_mat_mul det2_transpose2 power2_eq_square) (simp add: det2_def ident2_def)
qed

section \<open>What the contract of the decomposition determines\<close>

text \<open>With \<open>cov = U * diag s * Vh\<close> and orthogonal factors, \<open>cov * cov\<^sup>T = U * diag s\<^sup>2 * U\<^sup>T\<close>.
  Hence the squares of the singular values sum to the squared Frobenius norm, their product
  is the absolute value of the determinant, and the columns of \<open>U\<close> are eigenvectors of
  \<open>cov * cov\<^sup>T\<close>.\<close>

lemma svd_gram:
  assumes "is_svd A (U, s, Vh)"
  shows "mat_mul A (transpose2 A) = mat_mul (mat_mul U (mat_mul (diag2 s) (diag2 s))) (transpose2 U)"
proof -
  from assms have V: "mat_mul Vh (transpose2 Vh) = ident2"
    and A: "A = mat_mul (mat_mul U (diag2 s)) Vh"
    by (simp_all add: is_svd_def)
  have "mat_mul A (transpose2 A) =
      mat_mul (mat_mul U (diag2 s)) (mat_mul (mat_mul Vh (transpose2 Vh)) (mat_mul (diag2 s) (transpose2 U)))"
    by (subst (1 2) A) (simp only: transpose2_mat_mul transpose2_diag2 mat_mul_assoc)
  also have "\<dots> = mat_mul (mat_mul U (mat_mul (diag2 s) (diag2 s))) (transpose2 U)"
    by (simp only: V mat_mul_ident_left mat_mul_assoc)
  finally show ?thesis .
qed

lemma svd_frobenius:
  assumes "is_svd A (U, s, Vh)"
  shows "(fst s)\<^sup>2 + (snd s)\<^sup>2 = (m00 A)\<^sup>2 + (m01 A)\<^sup>2 + (m10 A)\<^sup>2 + (m11 A)\<^sup>2"
proof -
  from assms have U: "mat_mul (transpose2 U) U = ident2"
    by (simp add: is_svd_def)
  have "(m00 A)\<^sup>2 + (m01 A)\<^sup>2 + (m10 A)\<^sup>2 + (m11 A)\<^sup>2 = trace2 (mat_mul A (transpose2 A))"
    by (simp add: mat_mul_def transpose2_def trace2_def power2_eq_square)
  also have "\<dots> = trace2 (mat_mul (mat_mul U (mat_mul (diag2 s) (diag2 s))) (transpose2 U))"
    by (simp only: svd_gram [OF assms])
  also have "\<dots> = trace2 (mat_mul (mat_mul (transpose2 U) U) (mat_mul (diag2 s) (diag2 s)))"
    using trace2_mat_mul_commute [of "mat_mul U (mat_mul (diag2 s) (diag2 s))" "transpose2 U"]
    by (simp only: mat_mul_assoc)
  also have "\<dots> = (fst s)\<^sup>2 + (snd s)\<^sup>2"
    by (simp add: U mat_mul_ident_left) (simp add: mat_mul_def diag2_def trace2_def power2_eq_square)
  finally show ?thesis by simp
qed

lemma svd_det_sq:
  assumes "is_svd A (U, s, Vh)"
  shows "(det2 A)\<^sup>2 = (fst s * snd s)\<^sup>2"
proof -
  from assms have U: "(det2 U)\<^sup>2 = 1" and V: "(det2 Vh)\<^sup>2 = 1"
    and A: "A = mat_mul (mat_mul U (diag2 s)) Vh"
    by (simp_all add: is_svd_def orthogonal_det2 orthogonal_det2')
  have "det2 A = det2 U * (fst s * snd s) * det2 Vh"
    by (subst A) (simp add: det2_mat_mul, simp add: det2_def diag2_def)
  then have "(det2 A)\<^sup>2 = (det2 U)\<^sup>2 * (fst s * snd s)\<^sup>2 * (det2 Vh)\<^sup>2"
    by (simp add: power_mult_distrib)
  then show ?thesis by (simp add: U V)
qed

lemma svd_det_abs:
  assumes "is_svd A (U, s, Vh)"
  shows "fst s * snd s = \<bar>det2 A\<bar>"
proof -
  from assms have "0 \<le> snd s" "snd s \<le> fst s" by (simp_all add: is_svd_def)
  then have "0 \<le> fst s * snd s" by simp
  with svd_det_sq [OF assms] show ?thesis
    by (metis abs_of_nonneg power2_eq_iff abs_minus_cancel abs_of_nonneg)
qed

lemma svd_left_vector:
  assumes "is_svd A (U, s, Vh)"
  shows "mat_vec (mat_mul A (transpose2 A)) (m00 U, m10 U) = ((fst s)\<^sup>2 * m00 U, (fst s)\<^sup>2 * m10 U)"
proof -
  from assms have U: "mat_mul (transpose2 U) U = ident2"
    by (simp add: is_svd_def)
  have "mat_mul (mat_mul A (transpose2 A)) U = mat_mul (mat_mul U (mat_mul (diag2 s) (diag2 s))) (mat_mul (transpose2 U) U)"
    by (simp only: svd_gram [OF assms] mat_mul_assoc)
  also have "\<dots> = mat_mul U (mat_mul (diag2 s) (diag2 s))"
    by (simp only: U mat_mul_ident_right)
  finally have "mat_mul (mat_mul A (transpose2 A)) U = mat_mul U (mat_mul (diag2 s) (diag2 s))" .
  then have "m00 (mat_mul (mat_mul A (transpose2 A)) U) = m00 (mat_mul U (mat_mul (diag2 s) (diag2 s)))"
    and "m10 (mat_mul (mat_mul A (transpose2 A)) U) = m10 (mat_mul U (mat_mul (diag2 s) (diag2 s)))"
    by simp_all
  then show ?thesis
    by (simp add: mat_vec_def mat_mul_def diag2_def power2_eq_square algebra_simps)
qed

lemma svd_second_left_vector:
  assumes "is_svd A (U, s, Vh)"
  shows "mat_vec (mat_mul A (transpose2 A)) (m01 U, m11 U) = ((snd s)\<^sup>2 * m01 U, (snd s)\<^sup>2 * m11 U)"
proof -
  from assms have U: "mat_mul (transpose2 U) U = ident2"
    by (simp add: is_svd_def)
  have "mat_mul (mat_mul A (transpose2 A)) U = mat_mul (mat_mul U (mat_mul (diag2 s) (diag2 s))) (mat_mul (transpose2 U) U)"
    by (simp only: svd_gram [OF assms] mat_mul_assoc)
  also have "\<dots> = mat_mul U (mat_mul (diag2 s) (diag2 s))"
    by (simp only: U mat_mul_ident_right)
  finally have "mat_mul (mat_mul A (transpose2 A)) U = mat_mul U (mat_mul (diag2 s) (diag2 s))" .
  then have "m01 (mat_mul (mat_mul A (transpose2 A)) U) = m01 (mat_mul U (mat_mul (diag2 s) (diag2 s)))"
    and "m11 (mat_mul (mat_mul A (transpose2 A)) U) = m11 (mat_mul U (mat_mul (diag2 s) (diag2 s)))"
    by simp_all
  then show ?thesis
    by (simp add: mat_vec_def mat_mul_def diag2_def power2_eq_square algebra_simps)
qed

lemma svd_first_column_unit:
  assumes "is_svd A (U, s, Vh)"
  shows "(m00 U)\<^sup>2 + (m10 U)\<^sup>2 = 1"
proof -
  from assms have "m00 (mat_mul (transpose2 U) U) = m00 ident2"
    by (simp add: is_svd_def)
  then show ?thesis
    by (simp add: mat_mul_def transpose2_def ident2_def power2_eq_square)
qed

lemma svd_columns_orthonormal:
  assumes "is_svd A (U, s, Vh)"
  shows "(m01 U)\<^sup>2 + (m11 U)\<^sup>2 = 1" "m00 U * m01 U + m10 U * m11 U = 0"
proof -
  from assms have "m11 (mat_mul (transpose2 U) U) = m11 ident2"
    and "m01 (mat_mul (transpose2 U) U) = m01 ident2"
    by (simp_all add: is_svd_def)
  then show "(m01 U)\<^sup>2 + (m11 U)\<^sup>2 = 1" "m00 U * m01 U + m10 U * m11 U = 0"
    by (simp_all add: mat_mul_def transpose2_def ident2_def power2_eq_square)
qed

text \<open>The singular values are determined by the matrix, whatever the routine does inside.\<close>

lemma sv_unique:
  fixes s1 s2 t1 t2 :: real
  assumes "0 \<le> s2" "s2 \<le> s1" "0 \<le> t2" "t2 \<le> t1"
    and sq: "s1\<^sup>2 + s2\<^sup>2 = t1\<^sup>2 + t2\<^sup>2" and pr: "s1 * s2 = t1 * t2"
  shows "s1 = t1 \<and> s2 = t2"
proof -
  have "(s1 + s2)\<^sup>2 = (t1 + t2)\<^sup>2"
    using sq pr by (simp add: power2_sum)
  moreover have "0 \<le> s1 + s2" "0 \<le> t1 + t2" using assms by simp_all
  ultimately have plus: "s1 + s2 = t1 + t2"
    by (simp add: power2_eq_iff_nonneg)
  have "(s1 - s2)\<^sup>2 = (t1 - t2)\<^sup>2"
    using sq pr by (simp add: power2_diff)
  moreover have "0 \<le> s1 - s2" "0 \<le> t1 - t2" using assms by simp_all
  ultimately have minus: "s1 - s2 = t1 - t2"
    by (simp add: power2_eq_iff_nonneg)
  from plus minus show ?thesis by simp
qed

lemma svd_values_determined:
  assumes svd: "is_svd A (U, s, Vh)"
    and t: "0 \<le> t2" "t2 \<le> t1"
    and sq: "t1\<^sup>2 + t2\<^sup>2 = (m00 A)\<^sup>2 + (m01 A)\<^sup>2 + (m10 A)\<^sup>2 + (m11 A)\<^sup>2"
    and pr: "t1 * t2 = \<bar>det2 A\<bar>"
  shows "s = (t1, t2)"
proof -
  from svd have "0 \<le> snd s" "snd s \<le> fst s" by (simp_all add: is_svd_def)
  then have "fst s = t1 \<and> snd s = t2"
    using t sq pr svd_frobenius [OF svd] svd_det_abs [OF svd]
    by (intro sv_unique) simp_all
  then show ?thesis by (simp add: prod_eq_iff)
qed

lemma svd_values_psd:
  assumes svd: "is_svd A (U, s, Vh)" and psd: "psd2 A"
  shows "fst s + snd s = trace2 A \<and> fst s * snd s = det2 A"
proof -
  from psd have sym: "m01 A = m10 A" and nn: "0 \<le> m00 A" "0 \<le> m11 A" "0 \<le> det2 A"
    by (simp_all add: psd2_def symmetric2_def)
  from svd have s: "0 \<le> snd s" "snd s \<le> fst s" by (simp_all add: is_svd_def)
  have pr: "fst s * snd s = det2 A"
    using svd_det_abs [OF svd] nn by simp
  have "(fst s + snd s)\<^sup>2 = (fst s)\<^sup>2 + (snd s)\<^sup>2 + 2 * (fst s * snd s)"
    by (simp add: power2_sum)
  also have "\<dots> = (m00 A + m11 A)\<^sup>2"
    using svd_frobenius [OF svd] pr sym
    by (simp add: det2_def power2_sum power2_eq_square algebra_simps)
  finally have "(fst s + snd s)\<^sup>2 = (trace2 A)\<^sup>2" by (simp add: trace2_def)
  moreover have "0 \<le> fst s + snd s" "0 \<le> trace2 A" using s nn by (simp_all add: trace2_def)
  ultimately have "fst s + snd s = trace2 A" by (simp add: power2_eq_iff_nonneg)
  with pr show ?thesis by simp
qed




text \<open>When the singular values differ, the first left singular vector is determined up to
  sign.\<close>

lemma unit_perp_unique:
  fixes p q a b c d :: real
  assumes u2: "p * p + q * q = 1" and u1: "a * a + b * b = 1" and v: "c * c + d * d = 1"
    and o1: "a * p + b * q = 0" and o2: "c * p + d * q = 0"
  shows "(c = a \<and> d = b) \<or> (c = - a \<and> d = - b)"
proof -
  define w where "w = a * d - b * c"
  define g where "g = a * c + b * d"
  have wp: "w * p = 0" unfolding w_def using o1 o2 by algebra
  have wq: "w * q = 0" unfolding w_def using o1 o2 by algebra
  have "w * (p * p + q * q) = (w * p) * p + (w * q) * q" by (simp add: algebra_simps)
  also have "\<dots> = 0" by (simp only: wp wq mult_zero_left add_0_left)
  finally have w0: "w = 0" using u2 by simp
  have "g * g + w * w = (a * a + b * b) * (c * c + d * d)"
    unfolding g_def w_def by algebra
  with w0 u1 v have "g * g = 1" by simp
  then have "g = 1 \<or> g = - 1"
    by (metis power2_eq_1_iff power2_eq_square)
  then show ?thesis
  proof
    assume g1: "g = 1"
    have "(c - a) * (c - a) + (d - b) * (d - b) = (a * a + b * b) + (c * c + d * d) - 2 * g"
      unfolding g_def by algebra
    with u1 v g1 have "(c - a) * (c - a) + (d - b) * (d - b) = 0" by simp
    then have "c - a = 0 \<and> d - b = 0"
      by (simp add: sum_squares_eq_zero_iff)
    then show ?thesis by simp
  next
    assume g1: "g = - 1"
    have "(c + a) * (c + a) + (d + b) * (d + b) = (a * a + b * b) + (c * c + d * d) + 2 * g"
      unfolding g_def by algebra
    with u1 v g1 have "(c + a) * (c + a) + (d + b) * (d + b) = 0" by simp
    then have "c + a = 0 \<and> d + b = 0"
      by (simp add: sum_squares_eq_zero_iff)
    then show ?thesis by (simp add: add_eq_0_iff)
  qed
qed

lemma first_left_vector_unique:
  assumes d: "is_svd A (U, s, Vh)" and gap: "snd s < fst s"
    and unit: "c * c + t * t = 1"
    and eig: "mat_vec (mat_mul A (transpose2 A)) (c, t) = ((fst s)\<^sup>2 * c, (fst s)\<^sup>2 * t)"
  shows "(c = m00 U \<and> t = m10 U) \<or> (c = - m00 U \<and> t = - m10 U)"
proof -
  define M where "M = mat_mul A (transpose2 A)"
  have sym: "m01 M = m10 M"
    by (simp add: M_def mat_mul_def transpose2_def algebra_simps)
  from d have s: "0 \<le> snd s" by (simp add: is_svd_def)
  have e1: "m00 M * c + m01 M * t = (fst s)\<^sup>2 * c" "m10 M * c + m11 M * t = (fst s)\<^sup>2 * t"
    using eig by (simp_all add: M_def mat_vec_def)
  have e2: "m00 M * m01 U + m01 M * m11 U = (snd s)\<^sup>2 * m01 U"
    "m10 M * m01 U + m11 M * m11 U = (snd s)\<^sup>2 * m11 U"
    using svd_second_left_vector [OF d] by (simp_all add: M_def mat_vec_def)
  have "((fst s)\<^sup>2 - (snd s)\<^sup>2) * (c * m01 U + t * m11 U) = 0"
    using e1 e2 sym by algebra
  moreover have "(snd s)\<^sup>2 < (fst s)\<^sup>2"
    using s gap by (simp add: power_strict_mono)
  ultimately have perp: "c * m01 U + t * m11 U = 0" by simp
  show ?thesis
    using svd_columns_orthonormal [OF d] svd_first_column_unit [OF d] unit perp
    by (intro unit_perp_unique [of "m01 U" "m11 U"]) (simp_all add: power2_eq_square)
qed


section \<open>The angle functions\<close>

lemma arctan2_range: "- pi < arctan2 yy xx \<and> arctan2 yy xx \<le> pi"
proof -
  have b: "- (pi / 2) < arctan (yy / xx)" "arctan (yy / xx) < pi / 2"
    using arctan_lbound [of "yy / xx"] arctan_ubound [of "yy / xx"] by blast+
  have neg: "arctan (yy / xx) \<le> 0" if "xx < 0" "0 \<le> yy"
  proof -
    from that have "yy / xx \<le> 0" by (simp add: divide_nonneg_neg)
    then show ?thesis by (simp add: arctan_le_zero_iff)
  qed
  have pos: "0 < arctan (yy / xx)" if "xx < 0" "yy < 0"
  proof -
    from that have "0 < yy / xx" by (simp add: divide_neg_neg)
    then show ?thesis by (simp add: zero_less_arctan_iff)
  qed
  have p: "0 < pi" by simp
  show ?thesis
    unfolding arctan2_def using b neg pos p by (auto simp: not_less; linarith)
qed

lemma degrees_range: "- pi < r \<Longrightarrow> r \<le> pi \<Longrightarrow> - 180 < degrees r \<and> degrees r \<le> 180"
proof -
  assume a: "- pi < r" "r \<le> pi"
  have p: "0 < pi" by simp
  from a p have "- 180 * pi < r * 180" "r * 180 \<le> 180 * pi" by simp_all
  with p show ?thesis
    unfolding degrees_def by (simp add: pos_less_divide_eq pos_divide_le_eq)
qed

lemma sqrt_one_plus_ratio:
  fixes c t :: real
  assumes "c\<^sup>2 + t\<^sup>2 = 1" "c \<noteq> 0"
  shows "sqrt (1 + (t / c)\<^sup>2) = 1 / \<bar>c\<bar>"
proof -
  have "1 + (t / c)\<^sup>2 = (c\<^sup>2 + t\<^sup>2) / c\<^sup>2"
    using assms(2) by (simp add: power_divide add_divide_distrib)
  also have "\<dots> = (1 / \<bar>c\<bar>)\<^sup>2"
    using assms by (simp add: power_divide)
  finally show ?thesis
    by (simp add: real_sqrt_unique)
qed

lemma cos_sin_arctan2:
  assumes unit: "c\<^sup>2 + t\<^sup>2 = 1"
  shows "cos (arctan2 t c) = c \<and> sin (arctan2 t c) = t"
proof -
  consider "0 < c" | "c < 0" | "c = 0" by linarith
  then show ?thesis
  proof cases
    case 1
    then have "sqrt (1 + (t / c)\<^sup>2) = 1 / c"
      using sqrt_one_plus_ratio [OF unit] by simp
    with 1 show ?thesis
      by (simp add: arctan2_def cos_arctan sin_arctan)
  next
    case 2
    then have "sqrt (1 + (t / c)\<^sup>2) = - (1 / c)"
      using sqrt_one_plus_ratio [OF unit] by simp
    with 2 show ?thesis
      by (simp add: arctan2_def cos_arctan sin_arctan cos_diff sin_diff cos_add sin_add)
  next
    case 3
    with unit have "t\<^sup>2 = 1" by simp
    then have "t = 1 \<or> t = - 1" by (simp add: power2_eq_1_iff)
    with 3 show ?thesis
      by (auto simp: arctan2_def)
  qed
qed

lemma angle_direction_degrees:
  assumes "c\<^sup>2 + t\<^sup>2 = 1"
  shows "angle_direction (degrees (arctan2 t c)) = (c, t)"
  using cos_sin_arctan2 [OF assms] by (simp add: angle_direction_def degrees_def)



lemma degrees_axis:
  "degrees (arctan2 0 1) = 0" "degrees (arctan2 0 (- 1)) = 180"
  "degrees (arctan2 1 0) = 90" "degrees (arctan2 (- 1) 0) = - 90"
  by (simp_all add: degrees_def arctan2_def)

lemma arctan2_diag_neg: "c < 0 \<Longrightarrow> arctan2 c c = - (3 * pi / 4)"
  by (simp add: arctan2_def arctan_one)

lemma arctan2_diag_pos: "0 < c \<Longrightarrow> arctan2 c c = pi / 4"
  by (simp add: arctan2_def arctan_one)

section \<open>The reference decomposition meets the contract\<close>

lemma abs_sg: "\<bar>v\<bar> * sg v = v"
  by (simp add: sg_def)

lemma sg_sq: "sg v * sg v = 1"
  by (simp add: sg_def)

lemma eig_decomp:
  fixes a b d big small n :: real
  assumes s: "big + small = a + d" and p: "big * small = a * d - b * b"
    and n: "n * n = b * b + (big - a) * (big - a)" and n0: "n \<noteq> 0"
  defines "c \<equiv> - b / n" and "t \<equiv> - (big - a) / n"
  shows "big * c * c + small * t * t = a" "(big - small) * c * t = b"
    "big * t * t + small * c * c = d" "c * c + t * t = 1"
proof -
  have cn: "c * n = - b" and tn: "t * n = - (big - a)"
    using n0 by (simp_all add: c_def t_def)
  have nn: "n * n \<noteq> 0" using n0 by simp
  have "(big * c * c + small * t * t) * (n * n) = a * (n * n)"
    using cn tn n s p by algebra
  then show "big * c * c + small * t * t = a" using nn by simp
  have "((big - small) * c * t) * (n * n) = b * (n * n)"
    using cn tn n s p by algebra
  then show "(big - small) * c * t = b" using nn by simp
  have "(big * t * t + small * c * c) * (n * n) = d * (n * n)"
    using cn tn n s p by algebra
  then show "big * t * t + small * c * c = d" using nn by simp
  have "(c * c + t * t) * (n * n) = 1 * (n * n)"
    using cn tn n by algebra
  then show "c * c + t * t = 1" using nn by simp
qed

lemma sym_svd_diag:
  assumes "m01 A = 0" "m10 A = 0"
  shows "svd_ok sym_svd A"
proof -
  have A: "A = \<lparr>m00 = m00 A, m01 = 0, m10 = 0, m11 = m11 A\<rparr>"
    using assms by simp
  show ?thesis
    using assms unfolding svd_ok_def sym_svd_def Let_def is_svd_def
    by (subst (4 8) A)
       (simp add: mat_mul_def transpose2_def diag2_def ident2_def abs_sg sg_sq)
qed

lemma sym_svd_offdiag:
  assumes sym: "m10 A = m01 A" and b0: "m01 A \<noteq> 0"
  shows "svd_ok sym_svd A"
proof -
  define a b d where "a = m00 A" and "b = m01 A" and "d = m11 A"
  define m r where "m = (a + d) / 2" and "r = sqrt (((a - d) / 2)\<^sup>2 + b\<^sup>2)"
  define big small where "big = (if 0 \<le> m then m + r else m - r)"
    and "small = (if 0 \<le> m then m - r else m + r)"
  define n where "n = sqrt (b\<^sup>2 + (big - a)\<^sup>2)"
  define c t where "c = - b / n" and "t = - (big - a) / n"
  have b: "b \<noteq> 0" using b0 by (simp add: b_def)
  have A: "A = \<lparr>m00 = a, m01 = b, m10 = b, m11 = d\<rparr>"
    using sym by (simp add: a_def b_def d_def)
  have r0: "0 \<le> r" by (simp add: r_def)
  have rr: "r * r = ((a - d) / 2)\<^sup>2 + b\<^sup>2"
    by (simp add: r_def)
  have sum: "big + small = a + d"
    by (simp add: big_def small_def m_def)
  have "big * small = m * m - r * r"
    by (simp add: big_def small_def algebra_simps)
  also have "\<dots> = a * d - b * b"
    unfolding rr by (simp add: m_def power2_eq_square field_simps)
  finally have prod: "big * small = a * d - b * b" .
  have npos: "0 < b\<^sup>2 + (big - a)\<^sup>2"
    using b by (simp add: add_pos_nonneg)
  then have "0 < n" unfolding n_def by (simp only: real_sqrt_gt_zero)
  then have n0: "n \<noteq> 0" by simp
  have "n * n = \<bar>b\<^sup>2 + (big - a)\<^sup>2\<bar>" by (simp add: n_def)
  with npos have nn: "n * n = b * b + (big - a) * (big - a)"
    by (simp add: power2_eq_square)
  note e = eig_decomp [OF sum prod nn n0, folded c_def t_def]
  have e': "t * t + c * c = 1" using e(4) by (simp add: add.commute)
  have ord: "\<bar>small\<bar> \<le> \<bar>big\<bar>"
    using r0 by (auto simp: big_def small_def)
  have p00: "c * \<bar>big\<bar> * (sg big * c) + t * \<bar>small\<bar> * (sg small * t) = big * c * c + small * t * t"
    using abs_sg [of big] abs_sg [of small] by (simp add: algebra_simps)
  have p01: "c * \<bar>big\<bar> * (sg big * t) - t * \<bar>small\<bar> * (sg small * c) = (big - small) * c * t"
    using abs_sg [of big] abs_sg [of small] by (simp add: algebra_simps)
  have p10: "t * \<bar>big\<bar> * (sg big * c) - c * \<bar>small\<bar> * (sg small * t) = (big - small) * c * t"
    using abs_sg [of big] abs_sg [of small] by (simp add: algebra_simps)
  have p11: "t * \<bar>big\<bar> * (sg big * t) + c * \<bar>small\<bar> * (sg small * c) = big * t * t + small * c * c"
    using abs_sg [of big] abs_sg [of small] by (simp add: algebra_simps)
  have v1: "sg big * c * (sg big * c) + sg big * t * (sg big * t) = c * c + t * t"
    using sg_sq [of big] by (simp add: algebra_simps)
  have v2: "sg small * t * (sg small * t) + sg small * c * (sg small * c) = c * c + t * t"
    using sg_sq [of small] by (simp add: algebra_simps)
  have eq: "sym_svd A = Inr (\<lparr>m00 = c, m01 = t, m10 = t, m11 = - c\<rparr>, (\<bar>big\<bar>, \<bar>small\<bar>),
      \<lparr>m00 = sg big * c, m01 = sg big * t, m10 = sg small * t, m11 = - (sg small * c)\<rparr>)"
    using b0 sym unfolding sym_svd_def Let_def
    by (simp add: c_def t_def n_def big_def small_def m_def r_def a_def b_def d_def)
  show ?thesis
    unfolding svd_ok_def eq is_svd_def
    by (subst A) (simp add: mat_mul_def transpose2_def diag2_def ident2_def ord p00 p01 p10 p11 v1 v2 e e')
qed

lemma sym_svd_ok: "symmetric2 A \<Longrightarrow> svd_ok sym_svd A"
  using sym_svd_diag [of A] sym_svd_offdiag [of A]
  by (cases "m01 A = 0") (simp_all add: symmetric2_def)

lemma sqrt_9: "sqrt 9 = 3"
  by (rule real_sqrt_unique) simp_all

lemma sqrt_quarter: "sqrt (1 / 4) = 1 / 2"
  by (rule real_sqrt_unique) (simp_all add: power2_eq_square)

lemma sym_svd_diag_9_1:
  "sym_svd \<lparr>m00 = 9, m01 = 0, m10 = 0, m11 = 1\<rparr> = Inr (ident2, (9, 1), ident2)"
  by (simp add: sym_svd_def sg_def diag2_def ident2_def)

lemma sym_svd_diag_1_9:
  "sym_svd \<lparr>m00 = 1, m01 = 0, m10 = 0, m11 = 9\<rparr> =
     Inr (\<lparr>m00 = 0, m01 = 1, m10 = 1, m11 = 0\<rparr>, (9, 1), \<lparr>m00 = 0, m01 = 1, m10 = 1, m11 = 0\<rparr>)"
  by (simp add: sym_svd_def sg_def)

section \<open>The covariance array of a record\<close>

lemma overflow_bound_gt: "2 ^ 1000 < overflow_bound"
proof -
  have "(2::real) ^ 1024 = 2 ^ 54 * 2 ^ 970" by (simp add: power_add [symmetric])
  then have "overflow_bound = (2 ^ 54 - 1) * 2 ^ 970"
    by (simp add: overflow_bound_def algebra_simps)
  moreover have "(2::real) ^ 1000 = 2 ^ 30 * 2 ^ 970" by (simp add: power_add [symmetric])
  ultimately show ?thesis by simp
qed

lemma underflow_bound_lt: "underflow_bound < 1 / 2 ^ 1000"
  by (simp add: underflow_bound_def)

lemma fl64_exact: "underflow_bound < \<bar>v\<bar> \<Longrightarrow> \<bar>v\<bar> < overflow_bound \<Longrightarrow> fl64 v = F64 v"
  by (simp add: fl64_def)

lemma fl64_zero: "fl64 0 = F64 0"
  using overflow_bound_gt by (simp add: fl64_def underflow_bound_def)

lemma fl64_moderate:
  assumes "1 / 2 ^ 1000 \<le> \<bar>v\<bar>" and "\<bar>v\<bar> \<le> 2 ^ 1000"
  shows "fl64 v = F64 v"
  using assms overflow_bound_gt underflow_bound_lt by (intro fl64_exact) linarith+

lemma np_array_eq_Some:
  "np_array c00 c01 c10 c11 = Some A \<longleftrightarrow>
     float_of c00 = Some (m00 A) \<and> float_of c01 = Some (m01 A) \<and>
     float_of c10 = Some (m10 A) \<and> float_of c11 = Some (m11 A)"
  by (cases A) (auto simp: np_array_def split: option.splits)

lemma row_cov_symmetric: "row_cov r = Some A \<Longrightarrow> symmetric2 A"
  by (auto simp: row_cov_def np_array_eq_Some symmetric2_def)

lemma sym_svd_row_ok: "row_cov r = Some A \<Longrightarrow> svd_ok sym_svd A"
  by (rule sym_svd_ok [OF row_cov_symmetric])

lemma float_of_zero_cases: "float_of c = Some 0 \<Longrightarrow> c = I64 0 \<or> c = F64 0"
  by (cases c) (simp_all add: signed_eq_0_iff)

lemma smul_zero_right:
  assumes "float_of c = Some 0" and "float_of u = Some p"
  shows "float_of (smul u c) = Some 0"
  using float_of_zero_cases [OF assms(1)] assms(2)
  by (cases u) (auto simp: fl64_zero)

lemma ssquare_zero: "float_of c = Some 0 \<Longrightarrow> float_of (ssquare c) = Some 0"
  using float_of_zero_cases [of c] by (auto simp: fl64_zero)

lemma smul_finite_left: "float_of (smul u c) = Some v \<Longrightarrow> \<exists>p. float_of u = Some p"
  by (cases u; cases c) (auto split: option.splits)

text \<open>With both deviations zero and a finite correlation the array is the zero matrix.\<close>

lemma row_cov_zero:
  assumes "float_of (sx r) = Some 0" and "float_of (sy r) = Some 0"
    and "float_of (pxy r) = Some p"
  shows "row_cov r = Some \<lparr>m00 = 0, m01 = 0, m10 = 0, m11 = 0\<rparr>"
proof -
  from smul_zero_right [OF assms(1,3)] obtain q where "float_of (smul (pxy r) (sx r)) = Some q"
    by blast
  from smul_zero_right [OF assms(2) this]
  have "float_of (smul (smul (pxy r) (sx r)) (sy r)) = Some 0" .
  then show ?thesis
    by (simp add: row_cov_def np_array_eq_Some ssquare_zero assms)
qed

text \<open>An uncorrelated record of floats whose squares neither overflow nor underflow.\<close>

lemma row_cov_uncorrelated:
  assumes "sx r = F64 p" and "sy r = F64 q" and "pxy r = F64 0"
    and "fl64 (p * p) = F64 (p * p)" and "fl64 (q * q) = F64 (q * q)"
  shows "row_cov r = Some (diag2 (p * p, q * q))"
  using assms by (simp add: row_cov_def np_array_eq_Some fl64_zero diag2_def)

lemma array_okE:
  assumes "array_ok svd arr"
  obtains A where "arr = Some A" "svd_ok svd A"
  using assms by (auto simp: array_ok_def split: option.splits)

lemma cov_to_ellipse_array_Some:
  "cov_to_ellipse_array svd (Some A) pos kw = cov_to_ellipse svd A pos kw"
  by (simp add: cov_to_ellipse_array_def)

lemma cov_to_ellipse_array_None:
  "cov_to_ellipse_array svd None pos kw = Inl ValueError"
  by (simp add: cov_to_ellipse_array_def)

lemma sym_svd_half_corr:
  "sym_svd \<lparr>m00 = 1, m01 = 1 / 2, m10 = 1 / 2, m11 = 1\<rparr> =
     Inr (\<lparr>m00 = - (1 / 2) / sqrt (1 / 2), m01 = - (1 / 2) / sqrt (1 / 2),
           m10 = - (1 / 2) / sqrt (1 / 2), m11 = - (- (1 / 2) / sqrt (1 / 2))\<rparr>,
          (3 / 2, 1 / 2),
          \<lparr>m00 = - (1 / 2) / sqrt (1 / 2), m01 = - (1 / 2) / sqrt (1 / 2),
           m10 = - (1 / 2) / sqrt (1 / 2), m11 = - (- (1 / 2) / sqrt (1 / 2))\<rparr>)"
  by (simp add: sym_svd_def Let_def sg_def sqrt_quarter power2_eq_square real_sqrt_divide)

text \<open>The arrays of the records that are evaluated below.\<close>

lemma row_cov_3_1:
  "row_cov \<lparr>x = a, y = b, sx = F64 3, sy = F64 1, pxy = F64 0\<rparr> =
     Some \<lparr>m00 = 9, m01 = 0, m10 = 0, m11 = 1\<rparr>"
  by (simp add: row_cov_def np_array_def fl64_def overflow_bound_def underflow_bound_def)

lemma row_cov_1_3:
  "row_cov \<lparr>x = a, y = b, sx = F64 1, sy = F64 3, pxy = F64 0\<rparr> =
     Some \<lparr>m00 = 1, m01 = 0, m10 = 0, m11 = 9\<rparr>"
  by (simp add: row_cov_def np_array_def fl64_def overflow_bound_def underflow_bound_def)

lemma row_cov_half_corr:
  "row_cov \<lparr>x = a, y = b, sx = F64 1, sy = F64 1, pxy = F64 (1 / 2)\<rparr> =
     Some \<lparr>m00 = 1, m01 = 1 / 2, m10 = 1 / 2, m11 = 1\<rparr>"
  by (simp add: row_cov_def np_array_def fl64_def overflow_bound_def underflow_bound_def)

lemma row_cov_over_corr:
  "row_cov \<lparr>x = a, y = b, sx = F64 1, sy = F64 1, pxy = F64 (3 / 2)\<rparr> =
     Some \<lparr>m00 = 1, m01 = 3 / 2, m10 = 3 / 2, m11 = 1\<rparr>"
  by (simp add: row_cov_def np_array_def fl64_def overflow_bound_def underflow_bound_def)

lemma row_cov_overflow:
  "row_cov \<lparr>x = a, y = b, sx = F64 (10 ^ 200), sy = F64 1, pxy = F64 0\<rparr> = None"
  by (simp add: row_cov_def np_array_def fl64_def overflow_bound_def underflow_bound_def)



text \<open>Integer columns wrap around silently: the square of the \<open>int64\<close> deviation \<open>2^32\<close> is
  0, and the square of \<open>3037000500\<close> is negative.\<close>

lemma row_cov_int64_wrap:
  "row_cov \<lparr>x = a, y = b, sx = I64 4294967296, sy = I64 3037000500, pxy = I64 0\<rparr> =
     Some \<lparr>m00 = 0, m01 = 0, m10 = 0, m11 = - 9223372036709301616\<rparr>"
  by (simp add: row_cov_def np_array_def)


section \<open>Properties of \<open>cov_to_ellipse\<close>\<close>

lemma svd_okE:
  assumes "svd_ok svd cov"
  obtains U s Vh where "svd cov = Inr (U, s, Vh)" "is_svd cov (U, s, Vh)"
  using assms by (auto simp: svd_ok_def split: sum.splits)

lemma cov_to_ellipse_Inr:
  "svd cov = Inr (U, s, Vh) \<Longrightarrow>
   cov_to_ellipse svd cov pos kw =
     Inr \<lparr>xy = pos, width = 2 * sqrt (fst s), height = 2 * sqrt (snd s),
          angle = degrees (arctan2 (m10 U) (m00 U)), kwargs = kw\<rparr>"
  by (simp add: cov_to_ellipse_def)

lemma cov_to_ellipse_Inl: "svd cov = Inl e \<Longrightarrow> cov_to_ellipse svd cov pos kw = Inl e"
  by (simp add: cov_to_ellipse_def)

lemma cov_to_ellipse_ok:
  assumes "svd_ok svd cov"
  shows "\<exists>e. cov_to_ellipse svd cov pos kw = Inr e \<and> xy e = pos"
proof -
  from assms obtain U s Vh where r: "svd cov = Inr (U, s, Vh)" by (rule svd_okE)
  show ?thesis by (simp add: cov_to_ellipse_Inr [of svd cov, OF r])
qed

lemma cov_to_ellipse_array_ok:
  assumes "array_ok svd arr"
  shows "\<exists>e. cov_to_ellipse_array svd arr pos kw = Inr e \<and> xy e = pos"
proof -
  from assms obtain A where "arr = Some A" "svd_ok svd A" by (rule array_okE)
  then show ?thesis
    using cov_to_ellipse_ok [of svd A pos kw] by (simp add: cov_to_ellipse_array_Some)
qed

lemma cov_to_ellipse_array_Inl:
  "array_svd svd arr = Inl e \<Longrightarrow> cov_to_ellipse_array svd arr pos kw = Inl e"
  by (cases arr) (simp_all add: array_svd_def cov_to_ellipse_array_def cov_to_ellipse_Inl)

lemma sym_svd_values:
  assumes "symmetric2 A" and "0 \<le> t2" "t2 \<le> t1"
    and "t1\<^sup>2 + t2\<^sup>2 = (m00 A)\<^sup>2 + (m01 A)\<^sup>2 + (m10 A)\<^sup>2 + (m11 A)\<^sup>2"
    and "t1 * t2 = \<bar>det2 A\<bar>"
  shows "map_sum id width (cov_to_ellipse sym_svd A pos kw) = Inr (2 * sqrt t1) \<and>
         map_sum id height (cov_to_ellipse sym_svd A pos kw) = Inr (2 * sqrt t2)"
proof -
  from sym_svd_ok [OF assms(1)] obtain U s Vh where r: "sym_svd A = Inr (U, s, Vh)"
    and d: "is_svd A (U, s, Vh)" by (rule svd_okE)
  have "s = (t1, t2)" by (rule svd_values_determined [OF d assms(2-)])
  then show ?thesis
    by (simp add: cov_to_ellipse_Inr [of sym_svd A, OF r])
qed

subsection \<open>No validation of the covariance matrix\<close>

text \<open>Claim C1 says that \<open>cov_to_ellipse\<close> fails with an \<open>InvalidCovariance\<close> condition on
  every input whose covariance matrix has a negative eigenvalue, such as
  \<open>sigma_x = sigma_y = 1\<close>, \<open>rho_xy = 1.5\<close>. The function has no such check. On that
  input the matrix has determinant \<open>-5/4\<close> and the eigenvector \<open>(1, -1)\<close> with eigenvalue
  \<open>-1/2\<close>, and the function returns an ellipse of width \<open>2 * sqrt (5/2)\<close> and height
  \<open>2 * sqrt (1/2)\<close>.\<close>

theorem invalid_covariance_counterexample:
  "row_cov \<lparr>x = 0, y = 0, sx = F64 1, sy = F64 1, pxy = F64 (3 / 2)\<rparr> =
     Some \<lparr>m00 = 1, m01 = 3 / 2, m10 = 3 / 2, m11 = 1\<rparr> \<and>
   det2 \<lparr>m00 = 1, m01 = 3 / 2, m10 = 3 / 2, m11 = 1\<rparr> < 0 \<and>
   mat_vec \<lparr>m00 = 1, m01 = 3 / 2, m10 = 3 / 2, m11 = 1\<rparr> (1, - 1) = (- (1 / 2) * 1, - (1 / 2) * - 1) \<and>
   svd_ok sym_svd \<lparr>m00 = 1, m01 = 3 / 2, m10 = 3 / 2, m11 = 1\<rparr> \<and>
   map_sum id width (cov_to_ellipse sym_svd \<lparr>m00 = 1, m01 = 3 / 2, m10 = 3 / 2, m11 = 1\<rparr> (0, 0) ())
     = Inr (2 * sqrt (5 / 2)) \<and>
   map_sum id height (cov_to_ellipse sym_svd \<lparr>m00 = 1, m01 = 3 / 2, m10 = 3 / 2, m11 = 1\<rparr> (0, 0) ())
     = Inr (2 * sqrt (1 / 2))"
proof -
  have sym: "symmetric2 \<lparr>m00 = 1, m01 = 3 / 2, m10 = 3 / 2, m11 = 1\<rparr>"
    by (simp add: symmetric2_def)
  have "map_sum id width (cov_to_ellipse sym_svd \<lparr>m00 = 1, m01 = 3 / 2, m10 = 3 / 2, m11 = 1\<rparr> (0, 0) ())
     = Inr (2 * sqrt (5 / 2)) \<and>
   map_sum id height (cov_to_ellipse sym_svd \<lparr>m00 = 1, m01 = 3 / 2, m10 = 3 / 2, m11 = 1\<rparr> (0, 0) ())
     = Inr (2 * sqrt (1 / 2))"
    by (rule sym_svd_values [OF sym]) (simp_all add: det2_def power2_eq_square)
  then show ?thesis
    using sym_svd_ok [OF sym] by (simp add: row_cov_over_corr det2_def mat_vec_def)
qed

text \<open>Claim C1 as amended: on every matrix that the library routine decomposes, whatever
  the signs of its eigenvalues, \<open>cov_to_ellipse\<close> returns an ellipse descriptor, with
  \<open>0 \<le> height \<le> width\<close> and \<open>(width/2)\<^sup>2 * (height/2)\<^sup>2 = |det cov|\<close> (the singular values
  are the absolute values of the eigenvalues); and it raises an exception exactly when the
  library routine raises, that same exception.\<close>

theorem cov_to_ellipse_no_validation:
  "(svd_ok svd cov \<longrightarrow>
      (\<exists>e. cov_to_ellipse svd cov pos kw = Inr e \<and> 0 \<le> height e \<and> height e \<le> width e \<and>
           (width e / 2)\<^sup>2 * (height e / 2)\<^sup>2 = \<bar>det2 cov\<bar>)) \<and>
   (\<forall>err. (cov_to_ellipse svd cov pos kw = Inl err) = (svd cov = Inl err))"
proof (intro conjI impI allI)
  assume "svd_ok svd cov"
  then obtain U s Vh where r: "svd cov = Inr (U, s, Vh)"
    and d: "is_svd cov (U, s, Vh)" by (rule svd_okE)
  from d have s: "0 \<le> snd s" "snd s \<le> fst s" "0 \<le> fst s" by (simp_all add: is_svd_def)
  show "\<exists>e. cov_to_ellipse svd cov pos kw = Inr e \<and> 0 \<le> height e \<and> height e \<le> width e \<and>
           (width e / 2)\<^sup>2 * (height e / 2)\<^sup>2 = \<bar>det2 cov\<bar>"
    using s svd_det_abs [OF d] by (simp add: cov_to_ellipse_Inr [of svd cov, OF r])
next
  fix err
  show "(cov_to_ellipse svd cov pos kw = Inl err) = (svd cov = Inl err)"
    by (auto simp: cov_to_ellipse_def Let_def split: sum.splits)
qed

theorem cov_to_ellipse_no_validation_witness:
  "svd_ok sym_svd \<lparr>m00 = 1, m01 = 3 / 2, m10 = 3 / 2, m11 = 1\<rparr> \<and>
   (\<exists>e. cov_to_ellipse sym_svd \<lparr>m00 = 1, m01 = 3 / 2, m10 = 3 / 2, m11 = 1\<rparr> (0, 0) () = Inr e \<and>
        0 \<le> height e \<and> height e \<le> width e \<and>
        (width e / 2)\<^sup>2 * (height e / 2)\<^sup>2 = 5 / 4)"
proof -
  have ok: "svd_ok sym_svd \<lparr>m00 = 1, m01 = 3 / 2, m10 = 3 / 2, m11 = 1\<rparr>"
    by (rule sym_svd_ok) (simp add: symmetric2_def)
  show ?thesis
    using cov_to_ellipse_no_validation
      [of sym_svd "\<lparr>m00 = 1, m01 = 3 / 2, m10 = 3 / 2, m11 = 1\<rparr>" "(0, 0)" "()"] ok
    by (simp add: det2_def power2_eq_square)
qed

subsection \<open>The result is read off the decomposition\<close>

text \<open>Claim C2: for a symmetric positive semi-definite \<open>cov\<close> and a centre \<open>pos\<close>, with
  \<open>cov = U * diag s * Vh\<close> the decomposition the library returns, the result of
  \<open>cov_to_ellipse\<close> has the angle \<open>arctan2 (U[1,0]) (U[0,0])\<close> in degrees and the axis
  lengths \<open>2 * sqrt\<close> of the two singular values; and these singular values are the two
  eigenvalues of \<open>cov\<close> (their sum is its trace, their product its determinant), the
  variances along the principal axes.\<close>

theorem cov_to_ellipse_by_svd:
  assumes "psd2 cov" and "svd cov = Inr (U, s, Vh)" and "is_svd cov (U, s, Vh)"
  shows "cov_to_ellipse svd cov pos kw =
           Inr \<lparr>xy = pos, width = 2 * sqrt (fst s), height = 2 * sqrt (snd s),
                angle = degrees (arctan2 (m10 U) (m00 U)), kwargs = kw\<rparr>
         \<and> fst s + snd s = trace2 cov \<and> fst s * snd s = det2 cov"
  using cov_to_ellipse_Inr [of svd cov, OF assms(2)] svd_values_psd [OF assms(3) assms(1)] by simp

theorem cov_to_ellipse_by_svd_witness:
  "psd2 \<lparr>m00 = 9, m01 = 0, m10 = 0, m11 = 1\<rparr> \<and>
   sym_svd \<lparr>m00 = 9, m01 = 0, m10 = 0, m11 = 1\<rparr> = Inr (ident2, (9, 1), ident2) \<and>
   is_svd \<lparr>m00 = 9, m01 = 0, m10 = 0, m11 = 1\<rparr> (ident2, (9, 1), ident2) \<and>
   cov_to_ellipse sym_svd \<lparr>m00 = 9, m01 = 0, m10 = 0, m11 = 1\<rparr> (1, 2) () =
     Inr \<lparr>xy = (1, 2), width = 6, height = 2, angle = 0, kwargs = ()\<rparr>"
proof -
  have p: "psd2 \<lparr>m00 = 9, m01 = 0, m10 = 0, m11 = 1\<rparr>"
    by (simp add: psd2_def symmetric2_def det2_def)
  have d: "is_svd \<lparr>m00 = 9, m01 = 0, m10 = 0, m11 = 1\<rparr> (ident2, (9, 1), ident2)"
    by (simp add: is_svd_def mat_mul_def transpose2_def diag2_def ident2_def)
  show ?thesis
    using cov_to_ellipse_by_svd [where svd = sym_svd and pos = "(1, 2)" and kw = "()", OF p sym_svd_diag_9_1 d] p d
    by (simp add: sym_svd_diag_9_1 sqrt_9 ident2_def arctan2_def degrees_def)
qed

subsection \<open>The range of the angle\<close>

text \<open>For the record \<open>sigma_x = sigma_y = 1\<close>, \<open>rho_xy = 1/2\<close> the principal axis is the
  diagonal. Whatever decomposition the library routine returns, the angle is 45 or -135
  degrees, according to the sign of the first left singular vector.\<close>

lemma half_corr_angle_two_values:
  assumes ok: "svd_ok svd \<lparr>m00 = 1, m01 = 1 / 2, m10 = 1 / 2, m11 = 1\<rparr>"
  shows "\<exists>e. cov_to_ellipse svd \<lparr>m00 = 1, m01 = 1 / 2, m10 = 1 / 2, m11 = 1\<rparr> p kw = Inr e \<and>
           (angle e = 45 \<or> angle e = - 135)"
proof -
  define A where "A = \<lparr>m00 = 1, m01 = 1 / 2, m10 = 1 / 2, m11 = (1::real)\<rparr>"
  define c :: real where "c = - (1 / 2) / sqrt (1 / 2)"
  have c: "c < 0" by (simp add: c_def divide_neg_pos)
  from ok obtain U s Vh where v: "svd A = Inr (U, s, Vh)"
    and d: "is_svd A (U, s, Vh)" unfolding A_def by (rule svd_okE)
  have "svd_ok sym_svd A" by (rule sym_svd_ok) (simp add: symmetric2_def A_def)
  then have d0: "is_svd A (\<lparr>m00 = c, m01 = c, m10 = c, m11 = - c\<rparr>, (3 / 2, 1 / 2),
      \<lparr>m00 = c, m01 = c, m10 = c, m11 = - c\<rparr>)"
    by (simp add: svd_ok_def sym_svd_half_corr A_def c_def)
  have s: "s = (3 / 2, 1 / 2)"
    by (rule svd_values_determined [OF d])
      (simp_all add: A_def det2_def power2_eq_square)
  have unit: "m00 U * m00 U + m10 U * m10 U = 1"
    using svd_first_column_unit [OF d] by (simp add: power2_eq_square)
  have eig: "mat_vec (mat_mul A (transpose2 A)) (m00 U, m10 U) =
      ((fst (3 / 2 :: real, 1 / 2 :: real))\<^sup>2 * m00 U, (fst (3 / 2 :: real, 1 / 2 :: real))\<^sup>2 * m10 U)"
    using svd_left_vector [OF d] s by simp
  have "(m00 U = c \<and> m10 U = c) \<or> (m00 U = - c \<and> m10 U = - c)"
    using first_left_vector_unique [OF d0 _ unit eig] by simp
  moreover have "degrees (arctan2 c c) = - 135"
    by (simp add: arctan2_diag_neg [OF c] degrees_def)
  moreover have "degrees (arctan2 (- c) (- c)) = 45"
    using c by (simp add: arctan2_diag_pos [of "- c"] degrees_def)
  ultimately have "degrees (arctan2 (m10 U) (m00 U)) = - 135 \<or> degrees (arctan2 (m10 U) (m00 U)) = 45"
    by auto
  then show ?thesis
    unfolding A_def [symmetric] by (auto simp: cov_to_ellipse_Inr [of svd A, OF v])
qed

text \<open>Claim C5 says that the angle of the returned ellipse lies in \<open>[0, 180)\<close>. The function
  returns \<open>arctan2\<close> in degrees as it is, with no reduction modulo 180. For the valid record
  \<open>sigma_x = sigma_y = 1\<close>, \<open>rho_xy = 1/2\<close>, decomposed with first left singular vector
  \<open>(-1, -1) / sqrt 2\<close>, the angle is \<open>-135\<close>.\<close>

theorem angle_range_counterexample:
  "valid_point \<lparr>x = 0, y = 0, sx = F64 1, sy = F64 1, pxy = F64 (1 / 2)\<rparr> \<and>
   row_cov \<lparr>x = 0, y = 0, sx = F64 1, sy = F64 1, pxy = F64 (1 / 2)\<rparr> =
     Some \<lparr>m00 = 1, m01 = 1 / 2, m10 = 1 / 2, m11 = 1\<rparr> \<and>
   svd_ok sym_svd \<lparr>m00 = 1, m01 = 1 / 2, m10 = 1 / 2, m11 = 1\<rparr> \<and>
   map_sum id angle (cov_to_ellipse sym_svd \<lparr>m00 = 1, m01 = 1 / 2, m10 = 1 / 2, m11 = 1\<rparr> (0, 0) ())
     = Inr (- 135)"
proof -
  have neg: "- (1 / 2) / sqrt (1 / 2) < (0 :: real)"
    by (simp add: divide_neg_pos)
  have ok: "svd_ok sym_svd \<lparr>m00 = 1, m01 = 1 / 2, m10 = 1 / 2, m11 = 1\<rparr>"
    by (rule sym_svd_ok) (simp add: symmetric2_def)
  have "degrees (arctan2 (- (1 / 2) / sqrt (1 / 2)) (- (1 / 2) / sqrt (1 / 2))) = - 135"
    unfolding arctan2_diag_neg [OF neg] by (simp add: degrees_def)
  then show ?thesis
    using ok
    by (simp add: cov_to_ellipse_Inr [of sym_svd _, OF sym_svd_half_corr] row_cov_half_corr
        valid_point_def nonneg_def in_range_def)
qed

text \<open>Claim C5 as amended: whenever \<open>cov_to_ellipse\<close> returns an ellipse, its angle lies in
  the half-open interval \<open>(-180, 180]\<close>, the range of \<open>arctan2\<close> in degrees.\<close>

theorem angle_range:
  assumes "cov_to_ellipse svd cov pos kw = Inr e"
  shows "- 180 < angle e \<and> angle e \<le> 180"
proof -
  from assms obtain U s Vh where r: "svd cov = Inr (U, s, Vh)"
    by (auto simp: cov_to_ellipse_def split: sum.splits)
  from assms have "angle e = degrees (arctan2 (m10 U) (m00 U))"
    unfolding cov_to_ellipse_Inr [of svd cov, OF r] by auto
  then show ?thesis
    using degrees_range arctan2_range by simp
qed

theorem angle_range_witness:
  "cov_to_ellipse sym_svd \<lparr>m00 = 1, m01 = 0, m10 = 0, m11 = 9\<rparr> (0, 0) () =
     Inr \<lparr>xy = (0, 0), width = 6, height = 2, angle = 90, kwargs = ()\<rparr> \<and>
   - 180 < angle \<lparr>xy = (0, 0), width = 6, height = 2, angle = 90, kwargs = ()\<rparr> \<and>
   angle \<lparr>xy = (0, 0), width = 6, height = 2, angle = 90, kwargs = ()\<rparr> \<le> (180 :: real)"
proof -
  have e: "cov_to_ellipse sym_svd \<lparr>m00 = 1, m01 = 0, m10 = 0, m11 = 9\<rparr> (0, 0) () =
     Inr \<lparr>xy = (0, 0), width = 6, height = 2, angle = 90, kwargs = ()\<rparr>"
    by (simp add: cov_to_ellipse_Inr [of sym_svd _, OF sym_svd_diag_1_9] sqrt_9 arctan2_def degrees_def)
  show ?thesis
    using angle_range [OF e] e by simp
qed

subsection \<open>Non-negative axis lengths\<close>

text \<open>Claim C6: for every record with \<open>rho_xy\<close> in \<open>[-1, 1]\<close> and \<open>sigma_x, sigma_y \<ge> 0\<close>,
  the width and the height that \<open>cov_to_ellipse\<close> returns on the record's covariance
  array, which the library routine decomposes, are both non-negative.\<close>

theorem axes_nonneg:
  assumes "valid_point r" and "array_ok svd (row_cov r)"
  shows "\<exists>e. cov_to_ellipse_array svd (row_cov r) (x r, y r) kw = Inr e \<and>
           0 \<le> width e \<and> 0 \<le> height e"
proof -
  from assms(2) obtain A where A: "row_cov r = Some A" and ok: "svd_ok svd A"
    by (rule array_okE)
  from ok obtain U s Vh where r: "svd A = Inr (U, s, Vh)"
    and d: "is_svd A (U, s, Vh)" by (rule svd_okE)
  from d have "0 \<le> snd s" "0 \<le> fst s" by (simp_all add: is_svd_def)
  then show ?thesis
    by (simp add: A cov_to_ellipse_array_Some cov_to_ellipse_Inr [of svd A, OF r])
qed

theorem axes_nonneg_witness:
  "valid_point \<lparr>x = 0, y = 0, sx = F64 3, sy = F64 1, pxy = F64 0\<rparr> \<and>
   array_ok sym_svd (row_cov \<lparr>x = 0, y = 0, sx = F64 3, sy = F64 1, pxy = F64 0\<rparr>) \<and>
   (\<exists>e. cov_to_ellipse_array sym_svd (row_cov \<lparr>x = 0, y = 0, sx = F64 3, sy = F64 1, pxy = F64 0\<rparr>)
           (0, 0) () = Inr e \<and>
        0 \<le> width e \<and> 0 \<le> height e)"
proof -
  have v: "valid_point \<lparr>x = 0, y = 0, sx = F64 3, sy = F64 1, pxy = F64 0\<rparr>"
    by (simp add: valid_point_def nonneg_def in_range_def)
  have ok: "array_ok sym_svd (row_cov \<lparr>x = 0, y = 0, sx = F64 3, sy = F64 1, pxy = F64 0\<rparr>)"
    using sym_svd_row_ok [OF row_cov_3_1] by (simp add: array_ok_def row_cov_3_1)
  show ?thesis
    using axes_nonneg [OF v ok, of "()"] v ok by simp
qed

subsection \<open>Exchanging the two deviations\<close>








subsection \<open>The degenerate record\<close>

text \<open>Claim C9: for every record with \<open>sigma_x = sigma_y = 0\<close>, whatever \<open>rho_xy\<close>,
  \<open>cov_to_ellipse\<close> returns an ellipse on the record's array, which the library routine
  decomposes (the singular matrix is no error), and its width and height are both 0.\<close>

theorem zero_sigma_zero_axes:
  assumes "float_of (sx r) = Some 0" and "float_of (sy r) = Some 0"
    and "array_ok svd (row_cov r)"
  shows "\<exists>e. cov_to_ellipse_array svd (row_cov r) (x r, y r) kw = Inr e \<and>
           width e = 0 \<and> height e = 0"
proof -
  from assms(3) obtain A where A: "row_cov r = Some A" and ok: "svd_ok svd A"
    by (rule array_okE)
  from A have e: "float_of (ssquare (sx r)) = Some (m00 A)"
    "float_of (smul (smul (pxy r) (sx r)) (sy r)) = Some (m01 A)"
    "float_of (smul (smul (pxy r) (sx r)) (sy r)) = Some (m10 A)"
    "float_of (ssquare (sy r)) = Some (m11 A)"
    by (auto simp: row_cov_def np_array_eq_Some)
  from smul_finite_left [OF e(2)] obtain q where "float_of (smul (pxy r) (sx r)) = Some q"
    by blast
  from smul_zero_right [OF assms(2) this] e(2,3) have off: "m01 A = 0" "m10 A = 0"
    by simp_all
  from e(1,4) ssquare_zero [OF assms(1)] ssquare_zero [OF assms(2)]
  have dia: "m00 A = 0" "m11 A = 0" by simp_all
  from ok obtain U s Vh where v: "svd A = Inr (U, s, Vh)"
    and d: "is_svd A (U, s, Vh)" by (rule svd_okE)
  have "s = (0, 0)"
    by (rule svd_values_determined [OF d]) (simp_all add: off dia det2_def)
  then show ?thesis
    by (simp add: A cov_to_ellipse_array_Some cov_to_ellipse_Inr [of svd A, OF v])
qed

theorem zero_sigma_zero_axes_witness:
  "array_ok sym_svd (row_cov \<lparr>x = 5, y = 7, sx = F64 0, sy = F64 0, pxy = F64 (1 / 2)\<rparr>) \<and>
   (\<exists>e. cov_to_ellipse_array sym_svd
           (row_cov \<lparr>x = 5, y = 7, sx = F64 0, sy = F64 0, pxy = F64 (1 / 2)\<rparr>) (5, 7) () = Inr e \<and>
        width e = 0 \<and> height e = 0)"
proof -
  have c: "row_cov \<lparr>x = 5, y = 7, sx = F64 0, sy = F64 0, pxy = F64 (1 / 2)\<rparr> =
      Some \<lparr>m00 = 0, m01 = 0, m10 = 0, m11 = 0\<rparr>"
    by (rule row_cov_zero [where p = "1 / 2"]) simp_all
  have ok: "array_ok sym_svd (row_cov \<lparr>x = 5, y = 7, sx = F64 0, sy = F64 0, pxy = F64 (1 / 2)\<rparr>)"
    using sym_svd_row_ok [OF c] by (simp add: array_ok_def c)
  show ?thesis
    using zero_sigma_zero_axes [of "\<lparr>x = 5, y = 7, sx = F64 0, sy = F64 0, pxy = F64 (1 / 2)\<rparr>" sym_svd "()"] ok
    by simp
qed

subsection \<open>The width is the major axis\<close>

text \<open>Claim C10: for every matrix the library routine decomposes, the returned width is at
  least the returned height, because the singular values come in non-increasing order and
  the width is computed from the first. The returned angle belongs to that first singular
  value: the unit vector at that angle is an eigenvector of \<open>cov * cov\<^sup>T\<close> for the
  eigenvalue \<open>(width/2)\<^sup>4\<close>, the square of the larger singular value, and
  \<open>(width/2)\<^sup>4 + (height/2)\<^sup>4\<close> is the trace of \<open>cov * cov\<^sup>T\<close>.\<close>

theorem width_is_major_axis:
  assumes "svd_ok svd cov"
  shows "\<exists>e. cov_to_ellipse svd cov pos kw = Inr e \<and> height e \<le> width e \<and>
           mat_vec (mat_mul cov (transpose2 cov)) (angle_direction (angle e)) =
             ((width e / 2) ^ 4 * fst (angle_direction (angle e)),
              (width e / 2) ^ 4 * snd (angle_direction (angle e))) \<and>
           (width e / 2) ^ 4 + (height e / 2) ^ 4 = trace2 (mat_mul cov (transpose2 cov))"
proof -
  from assms obtain U s Vh where r: "svd cov = Inr (U, s, Vh)"
    and d: "is_svd cov (U, s, Vh)" by (rule svd_okE)
  from d have s: "0 \<le> snd s" "snd s \<le> fst s" "0 \<le> fst s" by (simp_all add: is_svd_def)
  have dir: "angle_direction (degrees (arctan2 (m10 U) (m00 U))) = (m00 U, m10 U)"
    by (rule angle_direction_degrees [OF svd_first_column_unit [OF d]])
  have w4: "sqrt (fst s) ^ 4 = (fst s)\<^sup>2"
    using s(3) by (simp add: power4_eq_xxxx power2_eq_square)
  have h4: "sqrt (snd s) ^ 4 = (snd s)\<^sup>2"
    using s(1) by (simp add: power4_eq_xxxx power2_eq_square)
  have tr: "trace2 (mat_mul cov (transpose2 cov)) = (fst s)\<^sup>2 + (snd s)\<^sup>2"
    using svd_frobenius [OF d]
    by (simp add: mat_mul_def transpose2_def trace2_def power2_eq_square)
  show ?thesis
    using s by (simp add: cov_to_ellipse_Inr [of svd cov, OF r] dir w4 h4 tr svd_left_vector [OF d])
qed

theorem width_is_major_axis_witness:
  "svd_ok sym_svd \<lparr>m00 = 1, m01 = 0, m10 = 0, m11 = 9\<rparr> \<and>
   (\<exists>e. cov_to_ellipse sym_svd \<lparr>m00 = 1, m01 = 0, m10 = 0, m11 = 9\<rparr> (0, 0) () = Inr e \<and>
        height e \<le> width e \<and>
        mat_vec (mat_mul \<lparr>m00 = 1, m01 = 0, m10 = 0, m11 = 9\<rparr> (transpose2 \<lparr>m00 = 1, m01 = 0, m10 = 0, m11 = 9\<rparr>))
            (angle_direction (angle e)) =
          ((width e / 2) ^ 4 * fst (angle_direction (angle e)),
           (width e / 2) ^ 4 * snd (angle_direction (angle e))) \<and>
        (width e / 2) ^ 4 + (height e / 2) ^ 4 =
          trace2 (mat_mul \<lparr>m00 = 1, m01 = 0, m10 = 0, m11 = 9\<rparr> (transpose2 \<lparr>m00 = 1, m01 = 0, m10 = 0, m11 = 9\<rparr>)))"
proof -
  have ok: "svd_ok sym_svd \<lparr>m00 = 1, m01 = 0, m10 = 0, m11 = 9\<rparr>"
    by (rule sym_svd_ok) (simp add: symmetric2_def)
  show ?thesis
    using width_is_major_axis [OF ok, of "(0, 0)" "()"] ok by simp
qed

subsection \<open>Scaling both deviations\<close>

text \<open>A record of floats and the record with both deviations multiplied by \<open>k\<close>: when no
  square and no product overflows or underflows, the array of the second is \<open>k\<^sup>2\<close> times
  the array of the first.\<close>

lemma row_cov_scaled:
  assumes "sx r = F64 s" and "sy r = F64 t" and "pxy r = F64 p"
    and "sx r' = F64 (k * s)" and "sy r' = F64 (k * t)" and "pxy r' = F64 p"
    and "fl64 (s * s) = F64 (s * s)" and "fl64 (t * t) = F64 (t * t)"
    and "fl64 (p * s) = F64 (p * s)" and "fl64 (p * s * t) = F64 (p * s * t)"
    and "fl64 (k * s * (k * s)) = F64 (k * s * (k * s))"
    and "fl64 (k * t * (k * t)) = F64 (k * t * (k * t))"
    and "fl64 (p * (k * s)) = F64 (p * (k * s))"
    and "fl64 (p * (k * s) * (k * t)) = F64 (p * (k * s) * (k * t))"
  shows "row_cov r = Some \<lparr>m00 = s * s, m01 = p * s * t, m10 = p * s * t, m11 = t * t\<rparr>"
    and "row_cov r' =
      Some (scale2 (k\<^sup>2) \<lparr>m00 = s * s, m01 = p * s * t, m10 = p * s * t, m11 = t * t\<rparr>)"
  using assms
  by (simp_all add: row_cov_def np_array_eq_Some scale2_def power2_eq_square algebra_simps)









section \<open>Properties of \<open>plot_ellipse\<close>\<close>

lemma plot_rows_all_ok:
  assumes "\<forall>r\<in>set t. array_ok svd (row_cov r)"
  shows "\<exists>es. plot_rows svd kw t ax = (ax\<lparr>artists := artists ax @ es\<rparr>, None) \<and>
           map xy es = map (\<lambda>r. (x r, y r)) t"
  using assms
proof (induction t arbitrary: ax)
  case Nil
  show ?case by simp
next
  case (Cons r t)
  from Cons.prems have "array_ok svd (row_cov r)" by simp
  from cov_to_ellipse_array_ok [OF this, of "(x r, y r)" kw]
  obtain e where e: "cov_to_ellipse_array svd (row_cov r) (x r, y r) kw = Inr e" "xy e = (x r, y r)"
    by auto
  from Cons.prems have "\<forall>r\<in>set t. array_ok svd (row_cov r)" by simp
  from Cons.IH [OF this, of "add_artist ax e"] obtain es where
    es: "plot_rows svd kw t (add_artist ax e) =
           ((add_artist ax e)\<lparr>artists := artists (add_artist ax e) @ es\<rparr>, None)"
        "map xy es = map (\<lambda>r. (x r, y r)) t"
    by auto
  have "plot_rows svd kw (r # t) ax = (ax\<lparr>artists := artists ax @ (e # es)\<rparr>, None)"
    using e(1) es(1) by (simp add: add_artist_def)
  moreover have "map xy (e # es) = map (\<lambda>r. (x r, y r)) (r # t)"
    using e(2) es(2) by simp
  ultimately show ?case by (intro exI [of _ "e # es"] conjI)
qed

lemma plot_rows_append:
  "plot_rows svd kw (pre @ rest) ax =
     (case plot_rows svd kw pre ax of
        (ax', None) \<Rightarrow> plot_rows svd kw rest ax'
      | (ax', Some e) \<Rightarrow> (ax', Some e))"
  by (induction pre arbitrary: ax) (simp_all split: sum.splits)

lemma sym_svd_array_ok: "row_cov r = Some A \<Longrightarrow> array_ok sym_svd (row_cov r)"
  using sym_svd_row_ok [of r A] by (simp add: array_ok_def)

subsection \<open>One ellipse per record, in order\<close>

text \<open>Claim C3 says that for every sequence of \<open>N\<close> valid records the loop produces exactly
  \<open>N\<close> ellipses, in order, the \<open>i\<close>-th centred at \<open>(x, y)\<close> of the \<open>i\<close>-th record. Validity
  is not enough: the record \<open>sigma_x = 1e200\<close>, \<open>sigma_y = 1\<close>, \<open>rho_xy = 0\<close> is valid, its
  squared deviation overflows to infinity, the library routine raises \<open>ValueError\<close> on the
  array, and of the three valid records below only the first gets an ellipse.\<close>

theorem plot_ellipse_valid_records_counterexample:
  "valid_point \<lparr>x = 1, y = 1, sx = F64 3, sy = F64 1, pxy = F64 0\<rparr> \<and>
   valid_point \<lparr>x = 2, y = 2, sx = F64 (10 ^ 200), sy = F64 1, pxy = F64 0\<rparr> \<and>
   valid_point \<lparr>x = 3, y = 3, sx = F64 1, sy = F64 3, pxy = F64 0\<rparr> \<and>
   snd (plot_ellipse sym_svd \<lparr>artists = []\<rparr>
         [\<lparr>x = 1, y = 1, sx = F64 3, sy = F64 1, pxy = F64 0\<rparr>,
          \<lparr>x = 2, y = 2, sx = F64 (10 ^ 200), sy = F64 1, pxy = F64 0\<rparr>,
          \<lparr>x = 3, y = 3, sx = F64 1, sy = F64 3, pxy = F64 0\<rparr>] None ()) = Some ValueError \<and>
   map xy (artists (fst (plot_ellipse sym_svd \<lparr>artists = []\<rparr>
         [\<lparr>x = 1, y = 1, sx = F64 3, sy = F64 1, pxy = F64 0\<rparr>,
          \<lparr>x = 2, y = 2, sx = F64 (10 ^ 200), sy = F64 1, pxy = F64 0\<rparr>,
          \<lparr>x = 3, y = 3, sx = F64 1, sy = F64 3, pxy = F64 0\<rparr>] None ()))) = [(1, 1)]"
proof -
  have v: "valid_point \<lparr>x = 1, y = 1, sx = F64 3, sy = F64 1, pxy = F64 0\<rparr>"
    "valid_point \<lparr>x = 2, y = 2, sx = F64 (10 ^ 200), sy = F64 1, pxy = F64 0\<rparr>"
    "valid_point \<lparr>x = 3, y = 3, sx = F64 1, sy = F64 3, pxy = F64 0\<rparr>"
    by (simp_all add: valid_point_def nonneg_def in_range_def)
  have e1: "cov_to_ellipse_array sym_svd (row_cov \<lparr>x = 1, y = 1, sx = F64 3, sy = F64 1, pxy = F64 0\<rparr>)
      (1, 1) () = Inr \<lparr>xy = (1, 1), width = 6, height = 2, angle = 0, kwargs = ()\<rparr>"
    by (simp add: row_cov_3_1 cov_to_ellipse_array_Some
        cov_to_ellipse_Inr [of sym_svd _, OF sym_svd_diag_9_1] sqrt_9 ident2_def degrees_axis)
  have e2: "cov_to_ellipse_array sym_svd
      (row_cov \<lparr>x = 2, y = 2, sx = F64 (10 ^ 200), sy = F64 1, pxy = F64 0\<rparr>) (2, 2) () = Inl ValueError"
    by (simp only: row_cov_overflow cov_to_ellipse_array_None)
  have run: "plot_ellipse sym_svd \<lparr>artists = []\<rparr>
         [\<lparr>x = 1, y = 1, sx = F64 3, sy = F64 1, pxy = F64 0\<rparr>,
          \<lparr>x = 2, y = 2, sx = F64 (10 ^ 200), sy = F64 1, pxy = F64 0\<rparr>,
          \<lparr>x = 3, y = 3, sx = F64 1, sy = F64 3, pxy = F64 0\<rparr>] None () =
      (\<lparr>artists = [\<lparr>xy = (1, 1), width = 6, height = 2, angle = 0, kwargs = ()\<rparr>]\<rparr>, Some ValueError)"
    unfolding plot_ellipse_def Let_def option.case plot_rows.simps row.simps e1 e2
    by (simp add: add_artist_def)
  from v show ?thesis
    unfolding run by simp
qed

text \<open>Claim C3 as amended: for a table of \<open>N\<close> records on each of which the library routine
  decomposes the array that the loop computes (no square or product overflowing to an
  infinity), the loop of \<open>plot_ellipse\<close> adds exactly \<open>N\<close> ellipses to the axes, after the
  artists already there and in the order of the table, and the centre of the \<open>i\<close>-th one
  is \<open>(x, y)\<close> of the \<open>i\<close>-th record.\<close>

theorem plot_ellipse_one_per_row:
  assumes "\<forall>r\<in>set t. array_ok svd (row_cov r)"
  shows "\<exists>es. plot_ellipse svd gca t ax kw =
              ((case ax of None \<Rightarrow> gca | Some a \<Rightarrow> a)
                 \<lparr>artists := artists (case ax of None \<Rightarrow> gca | Some a \<Rightarrow> a) @ es\<rparr>, None) \<and>
           length es = length t \<and>
           (\<forall>i<length t. xy (es ! i) = (x (t ! i), y (t ! i)))"
proof -
  define ax0 where "ax0 = (case ax of None \<Rightarrow> gca | Some a \<Rightarrow> a)"
  from plot_rows_all_ok [OF assms, of kw ax0] obtain es where
    es: "plot_rows svd kw t ax0 = (ax0\<lparr>artists := artists ax0 @ es\<rparr>, None)"
        "map xy es = map (\<lambda>r. (x r, y r)) t"
    by auto
  from es(2) have len: "length es = length t"
    by (rule map_eq_imp_length_eq)
  have "xy (es ! i) = (x (t ! i), y (t ! i))" if "i < length t" for i
  proof -
    from that len have "xy (es ! i) = map xy es ! i" by simp
    also have "\<dots> = (x (t ! i), y (t ! i))" using that by (simp add: es(2))
    finally show ?thesis .
  qed
  with es(1) len show ?thesis
    unfolding plot_ellipse_def Let_def ax0_def by (intro exI [of _ es]) simp
qed

theorem plot_ellipse_one_per_row_witness:
  "array_ok sym_svd (row_cov \<lparr>x = 1, y = 2, sx = F64 3, sy = F64 1, pxy = F64 0\<rparr>) \<and>
   array_ok sym_svd (row_cov \<lparr>x = 3, y = 4, sx = F64 1, sy = F64 1, pxy = F64 (1 / 2)\<rparr>) \<and>
   (\<exists>es. plot_ellipse sym_svd \<lparr>artists = []\<rparr>
            [\<lparr>x = 1, y = 2, sx = F64 3, sy = F64 1, pxy = F64 0\<rparr>,
             \<lparr>x = 3, y = 4, sx = F64 1, sy = F64 1, pxy = F64 (1 / 2)\<rparr>]
            None () = (\<lparr>artists = es\<rparr>, None) \<and>
         length es = 2 \<and> xy (es ! 0) = (1, 2) \<and> xy (es ! 1) = (3, 4))"
proof -
  have ok1: "array_ok sym_svd (row_cov \<lparr>x = 1, y = 2, sx = F64 3, sy = F64 1, pxy = F64 0\<rparr>)"
    by (rule sym_svd_array_ok [OF row_cov_3_1])
  have ok2: "array_ok sym_svd (row_cov \<lparr>x = 3, y = 4, sx = F64 1, sy = F64 1, pxy = F64 (1 / 2)\<rparr>)"
    by (rule sym_svd_array_ok [OF row_cov_half_corr])
  have ok: "\<forall>r\<in>set [\<lparr>x = 1, y = 2, sx = F64 3, sy = F64 1, pxy = F64 0\<rparr>,
      \<lparr>x = 3, y = 4, sx = F64 1, sy = F64 1, pxy = F64 (1 / 2)\<rparr>]. array_ok sym_svd (row_cov r)"
    using ok1 ok2 by simp
  from plot_ellipse_one_per_row [OF ok, of "\<lparr>artists = []\<rparr>" None "()"]
  obtain es where es: "plot_ellipse sym_svd \<lparr>artists = []\<rparr>
            [\<lparr>x = 1, y = 2, sx = F64 3, sy = F64 1, pxy = F64 0\<rparr>,
             \<lparr>x = 3, y = 4, sx = F64 1, sy = F64 1, pxy = F64 (1 / 2)\<rparr>]
            None () = (\<lparr>artists = es\<rparr>, None)"
    "length es = 2"
    "\<forall>i<2. xy (es ! i) =
        (x ([\<lparr>x = 1, y = 2, sx = F64 3, sy = F64 1, pxy = F64 0\<rparr>,
             \<lparr>x = 3, y = 4, sx = F64 1, sy = F64 1, pxy = F64 (1 / 2)\<rparr>] ! i),
         y ([\<lparr>x = 1, y = 2, sx = F64 3, sy = F64 1, pxy = F64 0\<rparr>,
             \<lparr>x = 3, y = 4, sx = F64 1, sy = F64 1, pxy = F64 (1 / 2)\<rparr>] ! i))"
    by auto
  from es(3) have "xy (es ! 0) = (1, 2)" "xy (es ! 1) = (3, 4)"
    by (simp_all add: numeral_2_eq_2 less_Suc_eq)
  with es(1,2) show ?thesis
    using ok1 ok2 by blast
qed

subsection \<open>No per-record failure reports\<close>

text \<open>Claim C4 says that a record that fails validation (for example \<open>rho_xy\<close> outside
  \<open>[-1, 1]\<close>) is reported as a failure tagged with the record's identity, next to the
  results for the other records. The loop validates nothing and keeps no list of
  failures: in a table of three records whose second has \<open>rho_xy = 3/2\<close>, no exception is
  raised and three ellipses are added, one of them for the invalid record.\<close>

theorem plot_ellipse_invalid_record_counterexample:
  "\<not> valid_point \<lparr>x = 2, y = 2, sx = F64 1, sy = F64 1, pxy = F64 (3 / 2)\<rparr> \<and>
   snd (plot_ellipse sym_svd \<lparr>artists = []\<rparr>
         [\<lparr>x = 1, y = 1, sx = F64 3, sy = F64 1, pxy = F64 0\<rparr>,
          \<lparr>x = 2, y = 2, sx = F64 1, sy = F64 1, pxy = F64 (3 / 2)\<rparr>,
          \<lparr>x = 3, y = 3, sx = F64 1, sy = F64 3, pxy = F64 0\<rparr>] None ()) = None \<and>
   map xy (artists (fst (plot_ellipse sym_svd \<lparr>artists = []\<rparr>
         [\<lparr>x = 1, y = 1, sx = F64 3, sy = F64 1, pxy = F64 0\<rparr>,
          \<lparr>x = 2, y = 2, sx = F64 1, sy = F64 1, pxy = F64 (3 / 2)\<rparr>,
          \<lparr>x = 3, y = 3, sx = F64 1, sy = F64 3, pxy = F64 0\<rparr>] None ()))) = [(1, 1), (2, 2), (3, 3)]"
proof -
  have ok: "\<forall>r\<in>set [\<lparr>x = 1, y = 1, sx = F64 3, sy = F64 1, pxy = F64 0\<rparr>,
          \<lparr>x = 2, y = 2, sx = F64 1, sy = F64 1, pxy = F64 (3 / 2)\<rparr>,
          \<lparr>x = 3, y = 3, sx = F64 1, sy = F64 3, pxy = F64 0\<rparr>]. array_ok sym_svd (row_cov r)"
    using sym_svd_array_ok [OF row_cov_3_1, of 1 1] sym_svd_array_ok [OF row_cov_over_corr, of 2 2]
      sym_svd_array_ok [OF row_cov_1_3, of 3 3]
    by simp
  from plot_rows_all_ok [OF ok, of "()" "\<lparr>artists = []\<rparr>"]
  show ?thesis
    by (auto simp: plot_ellipse_def valid_point_def nonneg_def in_range_def)
qed

text \<open>Claim C4 as amended: \<open>plot_ellipse\<close> validates no record and reports no failure per
  record. For every table whose records the library routine decomposes, valid or not, it
  raises nothing and adds one ellipse per record, centred at the record's \<open>(x, y)\<close>. If the
  library routine raises on a record, that exception leaves the loop: the ellipses of the
  records before it stay on the axes, and no later record is processed.\<close>

theorem plot_ellipse_failure_policy:
  assumes "\<forall>r\<in>set pre. array_ok svd (row_cov r)"
  shows "snd (plot_ellipse svd gca pre ax kw) = None \<and>
         map xy (artists (fst (plot_ellipse svd gca pre ax kw))) =
           map xy (artists (case ax of None \<Rightarrow> gca | Some a \<Rightarrow> a)) @ map (\<lambda>r. (x r, y r)) pre \<and>
         (array_svd svd (row_cov r) = Inl e \<longrightarrow>
            plot_ellipse svd gca (pre @ r # post) ax kw =
              (fst (plot_ellipse svd gca pre ax kw), Some e))"
proof -
  define ax0 where "ax0 = (case ax of None \<Rightarrow> gca | Some a \<Rightarrow> a)"
  from plot_rows_all_ok [OF assms, of kw ax0] obtain es where
    es: "plot_rows svd kw pre ax0 = (ax0\<lparr>artists := artists ax0 @ es\<rparr>, None)"
        "map xy es = map (\<lambda>r. (x r, y r)) pre"
    by auto
  have "plot_rows svd kw (pre @ r # post) ax0 = (ax0\<lparr>artists := artists ax0 @ es\<rparr>, Some e)"
    if "array_svd svd (row_cov r) = Inl e"
    using that by (simp add: plot_rows_append es(1) cov_to_ellipse_array_Inl)
  with es show ?thesis
    unfolding plot_ellipse_def Let_def ax0_def [symmetric] by simp
qed

theorem plot_ellipse_failure_policy_witness:
  "array_ok sym_svd (row_cov \<lparr>x = 1, y = 1, sx = F64 3, sy = F64 1, pxy = F64 0\<rparr>) \<and>
   array_svd sym_svd (row_cov \<lparr>x = 2, y = 2, sx = F64 (10 ^ 200), sy = F64 1, pxy = F64 0\<rparr>) =
     Inl ValueError \<and>
   snd (plot_ellipse sym_svd \<lparr>artists = []\<rparr>
         [\<lparr>x = 1, y = 1, sx = F64 3, sy = F64 1, pxy = F64 0\<rparr>] None ()) = None \<and>
   map xy (artists (fst (plot_ellipse sym_svd \<lparr>artists = []\<rparr>
         [\<lparr>x = 1, y = 1, sx = F64 3, sy = F64 1, pxy = F64 0\<rparr>] None ()))) = [(1, 1)] \<and>
   plot_ellipse sym_svd \<lparr>artists = []\<rparr>
         [\<lparr>x = 1, y = 1, sx = F64 3, sy = F64 1, pxy = F64 0\<rparr>,
          \<lparr>x = 2, y = 2, sx = F64 (10 ^ 200), sy = F64 1, pxy = F64 0\<rparr>,
          \<lparr>x = 3, y = 3, sx = F64 1, sy = F64 3, pxy = F64 0\<rparr>] None () =
     (fst (plot_ellipse sym_svd \<lparr>artists = []\<rparr>
         [\<lparr>x = 1, y = 1, sx = F64 3, sy = F64 1, pxy = F64 0\<rparr>] None ()), Some ValueError)"
proof -
  have ok1: "array_ok sym_svd (row_cov \<lparr>x = 1, y = 1, sx = F64 3, sy = F64 1, pxy = F64 0\<rparr>)"
    by (rule sym_svd_array_ok [OF row_cov_3_1])
  then have ok: "\<forall>r\<in>set [\<lparr>x = 1, y = 1, sx = F64 3, sy = F64 1, pxy = F64 0\<rparr>].
      array_ok sym_svd (row_cov r)"
    by simp
  have bad: "array_svd sym_svd (row_cov \<lparr>x = 2, y = 2, sx = F64 (10 ^ 200), sy = F64 1, pxy = F64 0\<rparr>) =
     Inl ValueError"
    by (simp only: row_cov_overflow array_svd_def option.case)
  from plot_ellipse_failure_policy [OF ok, of "\<lparr>artists = []\<rparr>" None "()"
      "\<lparr>x = 2, y = 2, sx = F64 (10 ^ 200), sy = F64 1, pxy = F64 0\<rparr>" ValueError
      "[\<lparr>x = 3, y = 3, sx = F64 1, sy = F64 3, pxy = F64 0\<rparr>]"] bad
  have "snd (plot_ellipse sym_svd \<lparr>artists = []\<rparr>
         [\<lparr>x = 1, y = 1, sx = F64 3, sy = F64 1, pxy = F64 0\<rparr>] None ()) = None"
    and "map xy (artists (fst (plot_ellipse sym_svd \<lparr>artists = []\<rparr>
         [\<lparr>x = 1, y = 1, sx = F64 3, sy = F64 1, pxy = F64 0\<rparr>] None ()))) = [(1, 1)]"
    and "plot_ellipse sym_svd \<lparr>artists = []\<rparr>
         ([\<lparr>x = 1, y = 1, sx = F64 3, sy = F64 1, pxy = F64 0\<rparr>] @
          \<lparr>x = 2, y = 2, sx = F64 (10 ^ 200), sy = F64 1, pxy = F64 0\<rparr> #
          [\<lparr>x = 3, y = 3, sx = F64 1, sy = F64 3, pxy = F64 0\<rparr>]) None () =
     (fst (plot_ellipse sym_svd \<lparr>artists = []\<rparr>
         [\<lparr>x = 1, y = 1, sx = F64 3, sy = F64 1, pxy = F64 0\<rparr>] None ()), Some ValueError)"
    by simp_all
  with ok1 bad show ?thesis
    by (simp only: append.simps simp_thms)
qed

end
